theory Spec2Isabelle
  imports Main "HOL-Library.Signed_Division"
begin

unbundle bit_operations_syntax

section \<open>The event loop of ae.c: data model\<close>

text \<open>
  Constants of ae.h.  Masks and flags are C ints combined with the bitwise operators;
  they are modelled as \<open>int\<close> with \<open>AND\<close>, \<open>OR\<close> and \<open>NOT\<close> (two's complement).
\<close>

definition AE_OK :: int where "AE_OK = 0"
definition AE_ERR :: int where "AE_ERR = - 1"
definition AE_NONE :: int where "AE_NONE = 0"
definition AE_READABLE :: int where "AE_READABLE = 1"
definition AE_WRITABLE :: int where "AE_WRITABLE = 2"
definition AE_FILE_EVENTS :: int where "AE_FILE_EVENTS = 1"
definition AE_TIME_EVENTS :: int where "AE_TIME_EVENTS = 2"
definition AE_ALL_EVENTS :: int where "AE_ALL_EVENTS = AE_FILE_EVENTS OR AE_TIME_EVENTS"
definition AE_DONT_WAIT :: int where "AE_DONT_WAIT = 4"
definition AE_NOMORE :: int where "AE_NOMORE = - 1"

text \<open>
  A function pointer is the address of the function, a \<open>void *\<close> the address it holds.
  A pointer field of type \<open>funptr option\<close> is \<open>None\<close> when it is null or was never
  assigned (zmalloc does not initialise memory); calling it is undefined.
\<close>

type_synonym funptr = nat
type_synonym dataptr = nat

record aeFileEvent =
  mask_fe :: int
  rfileProc :: "funptr option"
  wfileProc :: "funptr option"
  clientData :: "dataptr option"

record aeTimeEvent =
  id_te :: int
  when_sec :: int
  when_ms :: int
  timeProc :: funptr
  finalizerProc :: "funptr option"
  clientData_te :: "dataptr option"

text \<open>
  The loop.  \<open>events\<close> and \<open>fired\<close> are the two arrays (a fired entry is the pair
  (fd, mask), \<open>None\<close> while the entry was never written); the timer list, linked through
  \<open>next\<close> in C, is the list of its records from the head; \<open>apidata\<close> is the private
  state of the polling backend.  The field \<open>events\<close> of the C structure is a pointer:
  \<open>events_block\<close> is the memory block it points to and \<open>events\<close> the content of that
  block.  zrealloc releases the block it is given and returns another one, so a pointer
  \<open>&events[fd]\<close> taken before a resize points into released memory after it.
\<close>

record 'a aeEventLoop =
  maxfd :: int
  setsize :: int
  timeEventNextId :: int
  lastTime :: int
  events_block :: nat
  events :: "aeFileEvent list"
  fired :: "(int \<times> int) option list"
  timeEventHead :: "aeTimeEvent list"
  stop :: int
  apidata :: 'a
  beforesleep :: "funptr option"

text \<open>
  The polling backend (ae_epoll.c, ae_select.c, ...) is chosen at build time and is not
  part of these sources: its operations are parameters.  Each returns the C result (0 or
  -1) and the backend state it leaves.
\<close>

record 'a aeApi =
  aeApiCreate :: "int \<Rightarrow> int \<times> 'a"
  aeApiResize :: "'a aeEventLoop \<Rightarrow> int \<Rightarrow> int \<times> 'a"
  aeApiAddEvent :: "'a aeEventLoop \<Rightarrow> int \<Rightarrow> int \<Rightarrow> int \<times> 'a"
  aeApiDelEvent :: "'a aeEventLoop \<Rightarrow> int \<Rightarrow> int \<Rightarrow> 'a"

section \<open>File events\<close>

definition fresh_slot :: aeFileEvent where
  "fresh_slot = \<lparr>mask_fe = AE_NONE, rfileProc = None, wfileProc = None, clientData = None\<rparr>"

text \<open>
  aeCreateEventLoop.  The three flags say whether each zmalloc returned memory, \<open>now\<close> is
  what time(NULL) returns.  \<open>None\<close> is the NULL result.
\<close>

definition aeCreateEventLoop ::
  "'a aeApi \<Rightarrow> bool \<Rightarrow> bool \<Rightarrow> bool \<Rightarrow> int \<Rightarrow> int \<Rightarrow> 'a aeEventLoop option" where
  "aeCreateEventLoop api loop_ok events_ok fired_ok now n =
     (if \<not> loop_ok then None
      else if \<not> events_ok \<or> \<not> fired_ok then None
      else (case aeApiCreate api n of (r, ad) \<Rightarrow>
        if r = - 1 then None
        else Some \<lparr>maxfd = - 1, setsize = n, timeEventNextId = 0, lastTime = now,
                   events_block = 0,
                   events = replicate (nat n) fresh_slot,
                   fired = replicate (nat n) None,
                   timeEventHead = [], stop = 0, apidata = ad, beforesleep = None\<rparr>))"

definition aeGetSetSize :: "'a aeEventLoop \<Rightarrow> int" where
  "aeGetSetSize eventLoop = setsize eventLoop"

text \<open>zrealloc of an array to \<open>n\<close> entries: the old content is kept, new entries are fresh.\<close>

definition zrealloc :: "'b \<Rightarrow> 'b list \<Rightarrow> nat \<Rightarrow> 'b list" where
  "zrealloc junk xs n = take n xs @ replicate (n - length xs) junk"

text \<open>\<open>for (i = k; i < setsize; i++) events[i].mask = AE_NONE\<close>\<close>

definition clear_masks_from :: "nat \<Rightarrow> aeFileEvent list \<Rightarrow> aeFileEvent list" where
  "clear_masks_from k es = take k es @ map (\<lambda>fe. fe\<lparr>mask_fe := AE_NONE\<rparr>) (drop k es)"

text \<open>
  aeResizeSetSize.  \<open>None\<close> is undefined behaviour: the clearing loop starts at
  \<open>maxfd + 1\<close>, a negative index when \<open>maxfd < -1\<close>.  The events array moves to a
  block not used before.
\<close>

definition aeResizeSetSize ::
  "'a aeApi \<Rightarrow> 'a aeEventLoop \<Rightarrow> int \<Rightarrow> (int \<times> 'a aeEventLoop) option" where
  "aeResizeSetSize api eventLoop n =
     (if n = setsize eventLoop then Some (AE_OK, eventLoop)
      else if maxfd eventLoop \<ge> n then Some (AE_ERR, eventLoop)
      else (case aeApiResize api eventLoop n of (r, ad) \<Rightarrow>
        if r = - 1 then Some (AE_ERR, eventLoop\<lparr>apidata := ad\<rparr>)
        else if maxfd eventLoop + 1 < 0 then None
        else Some (AE_OK,
          eventLoop\<lparr>apidata := ad,
                     events_block := Suc (events_block eventLoop),
                     events := clear_masks_from (nat (maxfd eventLoop + 1))
                                 (zrealloc fresh_slot (events eventLoop) (nat n)),
                     fired := zrealloc None (fired eventLoop) (nat n),
                     setsize := n\<rparr>)))"

text \<open>
  The assignments aeCreateFileEvent makes through \<open>fe\<close>: the mask is or-ed in, the
  callback goes to the directions named by the mask, the client data is overwritten.
\<close>

definition add_to_slot :: "aeFileEvent \<Rightarrow> int \<Rightarrow> funptr \<Rightarrow> dataptr option \<Rightarrow> aeFileEvent" where
  "add_to_slot fe m proc cd =
     (let fe1 = fe\<lparr>mask_fe := mask_fe fe OR m\<rparr>;
          fe2 = (if m AND AE_READABLE \<noteq> 0 then fe1\<lparr>rfileProc := Some proc\<rparr> else fe1);
          fe3 = (if m AND AE_WRITABLE \<noteq> 0 then fe2\<lparr>wfileProc := Some proc\<rparr> else fe2)
      in fe3\<lparr>clientData := cd\<rparr>)"

text \<open>
  aeCreateFileEvent.  The result is the return code and the loop; \<open>None\<close> is undefined
  behaviour: \<open>fd\<close> passed the test \<open>fd >= setsize\<close> but \<open>&events[fd]\<close> is outside the
  array (a negative \<open>fd\<close>).  errno is not modelled.
\<close>

definition aeCreateFileEvent ::
  "'a aeApi \<Rightarrow> 'a aeEventLoop \<Rightarrow> int \<Rightarrow> int \<Rightarrow> funptr \<Rightarrow> dataptr option
     \<Rightarrow> (int \<times> 'a aeEventLoop) option" where
  "aeCreateFileEvent api eventLoop fd m proc cd =
     (if fd \<ge> setsize eventLoop then Some (AE_ERR, eventLoop)
      else if fd < 0 \<or> nat fd \<ge> length (events eventLoop) then None
      else (case aeApiAddEvent api eventLoop fd m of (r, ad) \<Rightarrow>
        if r = - 1 then Some (AE_ERR, eventLoop\<lparr>apidata := ad\<rparr>)
        else Some (AE_OK,
               eventLoop\<lparr>apidata := ad,
                          events := (events eventLoop)
                            [nat fd := add_to_slot (events eventLoop ! nat fd) m proc cd],
                          maxfd := (if fd > maxfd eventLoop then fd else maxfd eventLoop)\<rparr>)))"

text \<open>
  \<open>for (j = maxfd-1; j >= 0; j--) if (events[j].mask != AE_NONE) break;\<close> started with
  \<open>k = maxfd\<close>: the value of \<open>j\<close> when the loop ends.
\<close>

fun scan_down :: "aeFileEvent list \<Rightarrow> nat \<Rightarrow> int" where
  "scan_down es 0 = - 1"
| "scan_down es (Suc j) = (if mask_fe (es ! j) \<noteq> AE_NONE then int j else scan_down es j)"

definition aeDeleteFileEvent ::
  "'a aeApi \<Rightarrow> 'a aeEventLoop \<Rightarrow> int \<Rightarrow> int \<Rightarrow> 'a aeEventLoop option" where
  "aeDeleteFileEvent api eventLoop fd m =
     (if fd \<ge> setsize eventLoop then Some eventLoop
      else if fd < 0 \<or> nat fd \<ge> length (events eventLoop) then None
      else
        let fe = events eventLoop ! nat fd in
        if mask_fe fe = AE_NONE then Some eventLoop
        else
          let ad = aeApiDelEvent api eventLoop fd m;
              fe1 = fe\<lparr>mask_fe := mask_fe fe AND NOT m\<rparr>;
              es = (events eventLoop)[nat fd := fe1]
          in Some (eventLoop\<lparr>apidata := ad, events := es,
                     maxfd := (if fd = maxfd eventLoop \<and> mask_fe fe1 = AE_NONE
                               then scan_down es (nat (maxfd eventLoop))
                               else maxfd eventLoop)\<rparr>))"

definition aeGetFileEvents :: "'a aeEventLoop \<Rightarrow> int \<Rightarrow> int option" where
  "aeGetFileEvents eventLoop fd =
     (if fd \<ge> setsize eventLoop then Some 0
      else if fd < 0 \<or> nat fd \<ge> length (events eventLoop) then None
      else Some (mask_fe (events eventLoop ! nat fd)))"

subsection \<open>Sequences of calls and the invariant of the registration table\<close>

datatype fileCall =
    CreateFileEvent int int funptr "dataptr option"
  | DeleteFileEvent int int
  | ResizeSetSize int

fun applyCall :: "'a aeApi \<Rightarrow> 'a aeEventLoop \<Rightarrow> fileCall \<Rightarrow> 'a aeEventLoop option" where
  "applyCall api el (CreateFileEvent fd m p d) = map_option snd (aeCreateFileEvent api el fd m p d)"
| "applyCall api el (DeleteFileEvent fd m) = aeDeleteFileEvent api el fd m"
| "applyCall api el (ResizeSetSize n) = map_option snd (aeResizeSetSize api el n)"

fun applyCalls :: "'a aeApi \<Rightarrow> 'a aeEventLoop \<Rightarrow> fileCall list \<Rightarrow> 'a aeEventLoop option" where
  "applyCalls api el [] = Some el"
| "applyCalls api el (c # cs) =
     (case applyCall api el c of None \<Rightarrow> None | Some el' \<Rightarrow> applyCalls api el' cs)"

text \<open>A descriptor is a nonnegative integer.\<close>

fun is_descriptor :: "fileCall \<Rightarrow> bool" where
  "is_descriptor (CreateFileEvent fd m p d) = (0 \<le> fd)"
| "is_descriptor (DeleteFileEvent fd m) = (0 \<le> fd)"
| "is_descriptor (ResizeSetSize n) = True"

text \<open>A call registers something unless it is an add with the mask AE_NONE.\<close>

fun registers :: "fileCall \<Rightarrow> bool" where
  "registers (CreateFileEvent fd m p d) = (m \<noteq> AE_NONE)"
| "registers c = True"

text \<open>
  The invariant of the data model: the array has \<open>setsize\<close> slots, \<open>maxfd\<close> is below
  \<open>setsize\<close>, and every slot with a mask other than AE_NONE is at or below \<open>maxfd\<close>
  (equivalently: every slot above \<open>maxfd\<close> has the mask AE_NONE).
\<close>

definition slots_below_maxfd :: "'a aeEventLoop \<Rightarrow> bool" where
  "slots_below_maxfd el \<longleftrightarrow>
     length (events el) = nat (setsize el) \<and> - 1 \<le> maxfd el \<and> maxfd el < setsize el \<and>
     (\<forall>i<length (events el). mask_fe (events el ! i) \<noteq> AE_NONE \<longrightarrow> int i \<le> maxfd el)"

text \<open>
  \<open>maxfd\<close> is -1 or the descriptor of a slot with a mask other than AE_NONE; with the
  invariant above, \<open>maxfd\<close> is then the largest such descriptor.
\<close>

definition maxfd_registered :: "'a aeEventLoop \<Rightarrow> bool" where
  "maxfd_registered el \<longleftrightarrow>
     maxfd el = - 1 \<or>
     (0 \<le> maxfd el \<and> nat (maxfd el) < length (events el) \<and>
      mask_fe (events el ! nat (maxfd el)) \<noteq> AE_NONE)"

text \<open>
  \<open>m\<close> is the largest descriptor whose slot has a mask other than AE_NONE, or -1 when
  there is no such slot.
\<close>

definition largest_registered :: "aeFileEvent list \<Rightarrow> int \<Rightarrow> bool" where
  "largest_registered es m \<longleftrightarrow>
     (\<forall>i<length es. mask_fe (es ! i) \<noteq> AE_NONE \<longrightarrow> int i \<le> m) \<and>
     (if \<exists>i<length es. mask_fe (es ! i) \<noteq> AE_NONE
      then 0 \<le> m \<and> nat m < length es \<and> mask_fe (es ! nat m) \<noteq> AE_NONE
      else m = - 1)"

text \<open>A backend that accepts every request and keeps no state.\<close>

definition accept_all :: "unit aeApi" where
  "accept_all = \<lparr>aeApiCreate = (\<lambda>n. (0, ())), aeApiResize = (\<lambda>el n. (0, ())),
                  aeApiAddEvent = (\<lambda>el fd m. (0, ())), aeApiDelEvent = (\<lambda>el fd m. ())\<rparr>"

text \<open>A loop created with \<open>n\<close> slots, then a sequence of calls.\<close>

definition run_calls :: "'a aeApi \<Rightarrow> int \<Rightarrow> fileCall list \<Rightarrow> 'a aeEventLoop option" where
  "run_calls api n cs =
     (case aeCreateEventLoop api True True True 0 n of
        None \<Rightarrow> None
      | Some el \<Rightarrow> applyCalls api el cs)"

text \<open>A loop of eight slots as aeCreateEventLoop returns it, and a sequence of calls.\<close>

definition example_loop :: "unit aeEventLoop" where
  "example_loop = \<lparr>maxfd = - 1, setsize = 8, timeEventNextId = 0, lastTime = 0,
     events_block = 0, events = replicate 8 fresh_slot, fired = replicate 8 None, timeEventHead = [], stop = 0,
     apidata = (), beforesleep = None\<rparr>"

definition example_calls :: "fileCall list" where
  "example_calls = [CreateFileEvent 3 AE_READABLE 1 None, CreateFileEvent 5 AE_WRITABLE 2 None,
           ResizeSetSize 16, DeleteFileEvent 5 AE_WRITABLE]"

text \<open>The loop after registering descriptor 3 for reading and descriptor 5 for writing.\<close>

definition registered_loop :: "unit aeEventLoop" where
  "registered_loop = \<lparr>maxfd = 5, setsize = 8, timeEventNextId = 0, lastTime = 0,
     events_block = 0, events = [fresh_slot, fresh_slot, fresh_slot,
               \<lparr>mask_fe = 1, rfileProc = Some 1, wfileProc = None, clientData = None\<rparr>,
               fresh_slot,
               \<lparr>mask_fe = 2, rfileProc = None, wfileProc = Some 2, clientData = Some 7\<rparr>,
               fresh_slot, fresh_slot],
     fired = replicate 8 None, timeEventHead = [], stop = 0,
     apidata = (), beforesleep = None\<rparr>"

section \<open>Time events\<close>

text \<open>
  Times are pairs (seconds, milliseconds).  The C code computes them in \<open>long\<close>; the model
  uses \<open>int\<close> (a clock would have to pass the year 292 billion to overflow).  C division
  truncates towards zero: \<open>sdiv\<close> and \<open>smod\<close>.
\<close>

text \<open>
  aeAddMillisecondsToNow, given what aeGetTime returned for the current time.
\<close>

definition aeAddMillisecondsToNow :: "int \<times> int \<Rightarrow> int \<Rightarrow> int \<times> int" where
  "aeAddMillisecondsToNow cur milliseconds =
     (let when_sec1 = fst cur + milliseconds sdiv 1000;
          when_ms1 = snd cur + milliseconds smod 1000
      in if when_ms1 \<ge> 1000 then (when_sec1 + 1, when_ms1 - 1000) else (when_sec1, when_ms1))"

text \<open>
  aeCreateTimeEvent.  \<open>te_ok\<close> says whether zmalloc returned a record, \<open>cur\<close> is the
  current time.  The result is the returned value (the identifier, or AE_ERR) and the loop.
  Identifiers are \<open>long long\<close> in C and \<open>int\<close> here.
\<close>

definition aeCreateTimeEvent ::
  "bool \<Rightarrow> int \<times> int \<Rightarrow> 'a aeEventLoop \<Rightarrow> int \<Rightarrow> funptr \<Rightarrow> dataptr option \<Rightarrow> funptr option
     \<Rightarrow> int \<times> 'a aeEventLoop" where
  "aeCreateTimeEvent te_ok cur eventLoop milliseconds proc cd fin =
     (let ident = timeEventNextId eventLoop;
          el1 = eventLoop\<lparr>timeEventNextId := ident + 1\<rparr>
      in if \<not> te_ok then (AE_ERR, el1)
         else
           let w = aeAddMillisecondsToNow cur milliseconds;
               te = \<lparr>id_te = ident, when_sec = fst w, when_ms = snd w, timeProc = proc,
                     finalizerProc = fin, clientData_te = cd\<rparr>
           in (ident, el1\<lparr>timeEventHead := te # timeEventHead el1\<rparr>))"

text \<open>
  aeSearchNearestTimer: the scan keeps the first record with the smallest
  (when_sec, when_ms).
\<close>

fun nearest_from :: "aeTimeEvent option \<Rightarrow> aeTimeEvent list \<Rightarrow> aeTimeEvent option" where
  "nearest_from nearest [] = nearest"
| "nearest_from nearest (te # rest) =
     nearest_from
       (case nearest of
          None \<Rightarrow> Some te
        | Some n \<Rightarrow>
            if when_sec te < when_sec n \<or> (when_sec te = when_sec n \<and> when_ms te < when_ms n)
            then Some te else Some n)
       rest"

definition aeSearchNearestTimer :: "'a aeEventLoop \<Rightarrow> aeTimeEvent option" where
  "aeSearchNearestTimer eventLoop = nearest_from None (timeEventHead eventLoop)"

text \<open>
  The timeout aeProcessEvents computes from the nearest timer and the current time
  (seconds, milliseconds): the pair (tv_sec, tv_usec) handed to aeApiPoll.
\<close>

definition nearest_timeout :: "aeTimeEvent \<Rightarrow> int \<times> int \<Rightarrow> int \<times> int" where
  "nearest_timeout shortest now =
     (let tv_sec0 = when_sec shortest - fst now;
          tv = (if when_ms shortest < snd now
                then (tv_sec0 - 1, ((when_ms shortest + 1000) - snd now) * 1000)
                else (tv_sec0, (when_ms shortest - snd now) * 1000));
          tv_sec1 = (if fst tv < 0 then 0 else fst tv);
          tv_usec1 = (if snd tv < 0 then 0 else snd tv)
      in (tv_sec1, tv_usec1))"

section \<open>Running callbacks\<close>

text \<open>
  A callback receives the loop and may change it and the rest of the program's state (the
  world: the clock, the kernel, the application).  What each function pointer does, the
  clock and the backend's poll are parameters.  The machine state holds the loop, the world
  and the log of the callbacks invoked so far, oldest first.
\<close>

datatype role = AsRead | AsWrite

datatype call =
    FileCall role funptr int "dataptr option" int
  | TimeCall funptr int "dataptr option"
  | FinalizerCall funptr "dataptr option"

record ('a, 'w) machine =
  loop :: "'a aeEventLoop"
  world :: 'w
  calls :: "call list"

record ('a, 'w) aeEnv =
  call_file :: "funptr \<Rightarrow> 'a aeEventLoop \<times> 'w \<Rightarrow> int \<Rightarrow> dataptr option \<Rightarrow> int
                  \<Rightarrow> 'a aeEventLoop \<times> 'w"
  call_time :: "funptr \<Rightarrow> 'a aeEventLoop \<times> 'w \<Rightarrow> int \<Rightarrow> dataptr option
                  \<Rightarrow> int \<times> 'a aeEventLoop \<times> 'w"
  call_finalizer :: "funptr \<Rightarrow> 'a aeEventLoop \<times> 'w \<Rightarrow> dataptr option \<Rightarrow> 'a aeEventLoop \<times> 'w"
  gettimeofday :: "'w \<Rightarrow> (int \<times> int) \<times> 'w"
  time_now :: "'w \<Rightarrow> int \<times> 'w"
  aeApiPoll :: "'a aeEventLoop \<times> 'w \<Rightarrow> (int \<times> int) option \<Rightarrow> int \<times> 'a aeEventLoop \<times> 'w"

text \<open>aeGetTime: seconds and milliseconds from gettimeofday's (tv_sec, tv_usec).\<close>

definition aeGetTime :: "('a, 'w) aeEnv \<Rightarrow> 'w \<Rightarrow> (int \<times> int) \<times> 'w" where
  "aeGetTime env w =
     (case gettimeofday env w of ((tv_sec, tv_usec), w') \<Rightarrow> ((tv_sec, tv_usec sdiv 1000), w'))"

subsection \<open>Dispatch of fired file events\<close>

text \<open>Calling through a callback field; \<open>None\<close> when the pointer is null or unassigned.\<close>

definition invoke_file ::
  "('a, 'w) aeEnv \<Rightarrow> ('a, 'w) machine \<Rightarrow> role \<Rightarrow> funptr option \<Rightarrow> int \<Rightarrow> dataptr option \<Rightarrow> int
     \<Rightarrow> ('a, 'w) machine option" where
  "invoke_file env m r p fd cd fmask =
     (case p of
        None \<Rightarrow> None
      | Some f \<Rightarrow>
          (case call_file env f (loop m, world m) fd cd fmask of (el, w) \<Rightarrow>
             Some \<lparr>loop = el, world = w, calls = calls m @ [FileCall r f fd cd fmask]\<rparr>))"

text \<open>
  The body of the loop over the fired array in aeProcessEvents, for the entry \<open>j\<close>.  The
  pointer \<open>fe = &events[fired[j].fd]\<close> is taken once, before the read callback, and the
  slot is read through it again after the read callback returned: these reads see what the
  callback left in the slot as long as the array is still in the block \<open>fe\<close> points
  into.  \<open>None\<close> is undefined behaviour: an entry or a slot outside its array, a call
  through a null or unassigned pointer, or a read through \<open>fe\<close> after the read callback
  moved the array to another block (a resize).
\<close>

definition dispatch_fired ::
  "('a, 'w) aeEnv \<Rightarrow> ('a, 'w) machine \<Rightarrow> nat \<Rightarrow> ('a, 'w) machine option" where
  "dispatch_fired env m j =
     (if j \<ge> length (fired (loop m)) then None
      else (case fired (loop m) ! j of
        None \<Rightarrow> None
      | Some (fd, fmask) \<Rightarrow>
          if fd < 0 \<or> nat fd \<ge> length (events (loop m)) then None
          else
            let fe = events (loop m) ! nat fd in
            (case (if mask_fe fe AND fmask AND AE_READABLE \<noteq> 0
                   then map_option (Pair True)
                          (invoke_file env m AsRead (rfileProc fe) fd (clientData fe) fmask)
                   else Some (False, m)) of
               None \<Rightarrow> None
             | Some (rfired, m1) \<Rightarrow>
                 if events_block (loop m1) \<noteq> events_block (loop m) then None
                 else if nat fd \<ge> length (events (loop m1)) then None
                 else
                   let fe1 = events (loop m1) ! nat fd in
                   if mask_fe fe1 AND fmask AND AE_WRITABLE \<noteq> 0
                   then (if \<not> rfired \<or> wfileProc fe1 \<noteq> rfileProc fe1
                         then invoke_file env m1 AsWrite (wfileProc fe1) fd (clientData fe1) fmask
                         else Some m1)
                   else Some m1)))"

text \<open>\<open>for (j = 0; j < numevents; j++)\<close>: the entries in order; the count of processed entries.\<close>

fun dispatch_all ::
  "('a, 'w) aeEnv \<Rightarrow> nat list \<Rightarrow> ('a, 'w) machine \<Rightarrow> ('a, 'w) machine option" where
  "dispatch_all env [] m = Some m"
| "dispatch_all env (j # js) m =
     (case dispatch_fired env m j of None \<Rightarrow> None | Some m' \<Rightarrow> dispatch_all env js m')"

subsection \<open>Firing time events\<close>

text \<open>
  aeDeleteTimeEvent: the first record with the identifier is unlinked, then its finalizer,
  if it has one, is called.
\<close>

fun unlink :: "int \<Rightarrow> aeTimeEvent list \<Rightarrow> (aeTimeEvent \<times> aeTimeEvent list) option" where
  "unlink i [] = None"
| "unlink i (te # rest) =
     (if id_te te = i then Some (te, rest)
      else (case unlink i rest of None \<Rightarrow> None | Some (t, rest') \<Rightarrow> Some (t, te # rest')))"

definition aeDeleteTimeEvent ::
  "('a, 'w) aeEnv \<Rightarrow> ('a, 'w) machine \<Rightarrow> int \<Rightarrow> int \<times> ('a, 'w) machine" where
  "aeDeleteTimeEvent env m i =
     (case unlink i (timeEventHead (loop m)) of
        None \<Rightarrow> (AE_ERR, m)
      | Some (te, rest) \<Rightarrow>
          let el1 = (loop m)\<lparr>timeEventHead := rest\<rparr> in
          (case finalizerProc te of
             None \<Rightarrow> (AE_OK, m\<lparr>loop := el1\<rparr>)
           | Some f \<Rightarrow>
               (case call_finalizer env f (el1, world m) (clientData_te te) of (el2, w2) \<Rightarrow>
                  (AE_OK, \<lparr>loop = el2, world = w2,
                           calls = calls m @ [FinalizerCall f (clientData_te te)]\<rparr>))))"

text \<open>
  After a periodic callback returned, processTimeEvents writes the new fire time through
  the pointer \<open>te\<close> it holds.  Records created by aeCreateTimeEvent have distinct
  identifiers, so the record is found by its identifier; \<open>None\<close> when the callback
  removed it (the write would go to freed memory).
\<close>

fun reschedule :: "int \<Rightarrow> int \<times> int \<Rightarrow> aeTimeEvent list \<Rightarrow> aeTimeEvent list option" where
  "reschedule i w [] = None"
| "reschedule i w (te # rest) =
     (if id_te te = i then Some (te\<lparr>when_sec := fst w, when_ms := snd w\<rparr> # rest)
      else map_option ((#) te) (reschedule i w rest))"

datatype status = Finished | OutOfFuel | Undefined

text \<open>
  What processTimeEvents does with a ripe timer: the callback, then the new fire time or
  the removal.  The flag of the result is False when the write of the new fire time is
  undefined; the machine state is then the one the callback left.
\<close>

definition fire ::
  "('a, 'w) aeEnv \<Rightarrow> ('a, 'w) machine \<Rightarrow> aeTimeEvent \<Rightarrow> bool \<times> ('a, 'w) machine" where
  "fire env m te =
     (case call_time env (timeProc te) (loop m, world m) (id_te te) (clientData_te te) of
        (retval, el, w) \<Rightarrow>
          let m1 = \<lparr>loop = el, world = w,
                    calls = calls m @ [TimeCall (timeProc te) (id_te te) (clientData_te te)]\<rparr>
          in if retval \<noteq> AE_NOMORE
             then (case aeGetTime env (world m1) of (cur, w2) \<Rightarrow>
                     (case reschedule (id_te te) (aeAddMillisecondsToNow cur retval)
                             (timeEventHead (loop m1)) of
                        None \<Rightarrow> (False, m1\<lparr>world := w2\<rparr>)
                      | Some tes \<Rightarrow>
                          (True, m1\<lparr>loop := (loop m1)\<lparr>timeEventHead := tes\<rparr>, world := w2\<rparr>)))
             else (True, snd (aeDeleteTimeEvent env m1 (id_te te))))"

text \<open>
  The \<open>while(te)\<close> loop of processTimeEvents; \<open>tes\<close> is the list from \<open>te\<close> on.  After a
  callback the scan starts again from the head of the list.  The loop need not end (a
  callback may ask to fire again at once), so the number of callbacks it may still run is
  bounded by \<open>fuel\<close>; the result is how the loop ended, the count of fired timers and the
  machine state reached.
\<close>

fun timer_loop ::
  "('a, 'w) aeEnv \<Rightarrow> nat \<Rightarrow> int \<Rightarrow> aeTimeEvent list \<Rightarrow> ('a, 'w) machine \<Rightarrow> int
     \<Rightarrow> status \<times> int \<times> ('a, 'w) machine" where
  "timer_loop env fuel maxId [] m processed = (Finished, processed, m)"
| "timer_loop env fuel maxId (te # rest) m processed =
     (if id_te te > maxId then timer_loop env fuel maxId rest m processed
      else
        (case aeGetTime env (world m) of (now, w1) \<Rightarrow>
           let m1 = m\<lparr>world := w1\<rparr> in
           if fst now > when_sec te \<or> (fst now = when_sec te \<and> snd now \<ge> when_ms te)
           then (case fuel of
                   0 \<Rightarrow> (OutOfFuel, processed, m1)
                 | Suc fuel' \<Rightarrow>
                     (case fire env m1 te of
                        (ok, m2) \<Rightarrow>
                          if ok
                          then timer_loop env fuel' maxId (timeEventHead (loop m2)) m2
                                 (processed + 1)
                          else (Undefined, processed + 1, m2)))
           else timer_loop env fuel maxId rest m1 processed))"

text \<open>The clock-skew test at the start of processTimeEvents, and the update of lastTime.\<close>

definition skew_reset :: "int \<Rightarrow> 'a aeEventLoop \<Rightarrow> 'a aeEventLoop" where
  "skew_reset now eventLoop =
     (if now < lastTime eventLoop
      then eventLoop\<lparr>timeEventHead := map (\<lambda>te. te\<lparr>when_sec := 0\<rparr>) (timeEventHead eventLoop)\<rparr>
      else eventLoop)\<lparr>lastTime := now\<rparr>"

definition processTimeEvents ::
  "('a, 'w) aeEnv \<Rightarrow> nat \<Rightarrow> ('a, 'w) machine \<Rightarrow> status \<times> int \<times> ('a, 'w) machine" where
  "processTimeEvents env fuel m =
     (case time_now env (world m) of (now, w1) \<Rightarrow>
        let el1 = skew_reset now (loop m);
            maxId = timeEventNextId el1 - 1
        in timer_loop env fuel maxId (timeEventHead el1) (m\<lparr>loop := el1, world := w1\<rparr>) 0)"

subsection \<open>aeProcessEvents\<close>

text \<open>The timeout handed to aeApiPoll: \<open>None\<close> is the null pointer (wait forever).\<close>

definition poll_timeout ::
  "('a, 'w) aeEnv \<Rightarrow> ('a, 'w) machine \<Rightarrow> int \<Rightarrow> (int \<times> int) option \<times> ('a, 'w) machine" where
  "poll_timeout env m flags =
     (let shortest = (if flags AND AE_TIME_EVENTS \<noteq> 0 \<and> \<not> (flags AND AE_DONT_WAIT \<noteq> 0)
                      then aeSearchNearestTimer (loop m) else None)
      in case shortest of
           Some te \<Rightarrow>
             (case aeGetTime env (world m) of (now, w1) \<Rightarrow>
                (Some (nearest_timeout te now), m\<lparr>world := w1\<rparr>))
         | None \<Rightarrow>
             if flags AND AE_DONT_WAIT \<noteq> 0 then (Some (0, 0), m) else (None, m))"

definition aeProcessEvents ::
  "('a, 'w) aeEnv \<Rightarrow> nat \<Rightarrow> ('a, 'w) machine \<Rightarrow> int \<Rightarrow> status \<times> int \<times> ('a, 'w) machine" where
  "aeProcessEvents env fuel m flags =
     (if \<not> (flags AND AE_TIME_EVENTS \<noteq> 0) \<and> \<not> (flags AND AE_FILE_EVENTS \<noteq> 0)
      then (Finished, 0, m)
      else
        (case (if maxfd (loop m) \<noteq> - 1 \<or>
                   (flags AND AE_TIME_EVENTS \<noteq> 0 \<and> \<not> (flags AND AE_DONT_WAIT \<noteq> 0))
               then (case poll_timeout env m flags of (tvp, m1) \<Rightarrow>
                       (case aeApiPoll env (loop m1, world m1) tvp of (numevents, el, w) \<Rightarrow>
                          (case dispatch_all env [0..<nat numevents] (m1\<lparr>loop := el, world := w\<rparr>) of
                             None \<Rightarrow> None
                           | Some m2 \<Rightarrow> Some (max numevents 0, m2))))
               else Some (0, m)) of
           None \<Rightarrow> (Undefined, 0, m)
         | Some (processed, m2) \<Rightarrow>
             if flags AND AE_TIME_EVENTS \<noteq> 0
             then (case processTimeEvents env fuel m2 of (st, n, m3) \<Rightarrow> (st, processed + n, m3))
             else (Finished, processed, m2)))"

section \<open>A concrete environment\<close>

text \<open>
  A world for running examples: a clock that stands still, read as (tv_sec, tv_usec), and
  the list of timeouts the backend's poll was called with.
\<close>

record ex_world =
  clock :: "int \<times> int"
  polled :: "(int \<times> int) option list"

text \<open>
  The functions of the example program, by address.  File callbacks: function 2 installs
  function 3 as the read callback of the descriptor it was called for, every other function
  returns at once.  Timer callbacks return AE_NOMORE; before that, function 2 removes the
  timer whose identifier is its client data (a timer without finalizer) and function 3
  creates a timer that is due at once.  The poll of the backend reports no event and notes
  its timeout.
\<close>

definition example_env :: "(unit, ex_world) aeEnv" where
  "example_env =
     \<lparr>call_file = (\<lambda>p (el, w) fd cd fmask.
         if p = 2
         then (case aeCreateFileEvent accept_all el fd AE_READABLE 3 cd of
                 Some (r, el') \<Rightarrow> (el', w)
               | None \<Rightarrow> (el, w))
         else (el, w)),
       call_time = (\<lambda>p (el, w) i cd.
         if p = 2
         then (AE_NOMORE,
               (case cd of
                  None \<Rightarrow> el
                | Some d \<Rightarrow>
                    (case unlink (int d) (timeEventHead el) of
                       None \<Rightarrow> el
                     | Some (t, rest) \<Rightarrow> el\<lparr>timeEventHead := rest\<rparr>)),
               w)
         else if p = 3
         then (AE_NOMORE,
               snd (aeCreateTimeEvent True (fst (clock w), snd (clock w) sdiv 1000) el 0 1 None None),
               w)
         else (AE_NOMORE, el, w)),
       call_finalizer = (\<lambda>p (el, w) cd. (el, w)),
       gettimeofday = (\<lambda>w. (clock w, w)),
       time_now = (\<lambda>w. (fst (clock w), w)),
       aeApiPoll = (\<lambda>(el, w) tvp. (0, el, w\<lparr>polled := polled w @ [tvp]\<rparr>))\<rparr>"

text \<open>
  A timer due at 10 s 100 ms, alone in the loop, and a machine whose clock reads
  10 s 500 ms.
\<close>

definition late_timer :: aeTimeEvent where
  "late_timer = \<lparr>id_te = 0, when_sec = 10, when_ms = 100, timeProc = 1, finalizerProc = None,
                  clientData_te = None\<rparr>"

definition late_machine :: "(unit, ex_world) machine" where
  "late_machine =
     \<lparr>loop = example_loop\<lparr>timeEventNextId := 1, timeEventHead := [late_timer]\<rparr>,
       world = \<lparr>clock = (10, 500000), polled = []\<rparr>, calls = []\<rparr>"

text \<open>
  Descriptor 3 registered for both directions with function 2 as both callbacks, and fired
  for both directions.
\<close>

definition duplex_machine :: "(unit, ex_world) machine" where
  "duplex_machine =
     \<lparr>loop = example_loop
         \<lparr>maxfd := 3,
           events := (events example_loop)
             [3 := \<lparr>mask_fe = 3, rfileProc = Some 2, wfileProc = Some 2, clientData = Some 9\<rparr>],
           fired := (fired example_loop)[0 := Some (3, 3)]\<rparr>,
       world = \<lparr>clock = (10, 0), polled = []\<rparr>, calls = []\<rparr>"

text \<open>The same with function 1, which leaves the loop alone.\<close>

definition quiet_machine :: "(unit, ex_world) machine" where
  "quiet_machine =
     \<lparr>loop = example_loop
         \<lparr>maxfd := 3,
           events := (events example_loop)
             [3 := \<lparr>mask_fe = 3, rfileProc = Some 1, wfileProc = Some 1, clientData = Some 9\<rparr>],
           fired := (fired example_loop)[0 := Some (3, 3)]\<rparr>,
       world = \<lparr>clock = (10, 0), polled = []\<rparr>, calls = []\<rparr>"



text \<open>
  Descriptor 3 after an add of AE_READABLE with function 10 and client data 1 and an add of
  AE_WRITABLE with function 20 and client data 2, fired for reading.
\<close>

definition shared_machine :: "(unit, ex_world) machine" where
  "shared_machine =
     \<lparr>loop = example_loop
         \<lparr>maxfd := 3,
           events := (events example_loop)
             [3 := \<lparr>mask_fe = 3, rfileProc = Some 10, wfileProc = Some 20, clientData = Some 2\<rparr>],
           fired := (fired example_loop)[0 := Some (3, 1)]\<rparr>,
       world = \<lparr>clock = (10, 0), polled = []\<rparr>, calls = []\<rparr>"

text \<open>
  A machine whose only timer (identifier 0, due since long) runs function 3, which creates
  a timer that is due at once.
\<close>

definition creating_machine :: "(unit, ex_world) machine" where
  "creating_machine =
     \<lparr>loop = example_loop
         \<lparr>timeEventNextId := 1,
           timeEventHead := [\<lparr>id_te = 0, when_sec = 0, when_ms = 0, timeProc = 3,
                              finalizerProc = None, clientData_te = None\<rparr>]\<rparr>,
       world = \<lparr>clock = (10, 0), polled = []\<rparr>, calls = []\<rparr>"

text \<open>
  Two timers due in the year 2001.  The clock reads 50 s while lastTime is 100 s: the clock
  was set back.  In \<open>skewed_machine\<close> both timers run function 1; in \<open>deleting_machine\<close>
  the timer at the head runs function 2 with the identifier of the other timer as client
  data, and so removes it.
\<close>

definition skewed_machine :: "(unit, ex_world) machine" where
  "skewed_machine =
     \<lparr>loop = example_loop
         \<lparr>timeEventNextId := 2, lastTime := 100,
           timeEventHead := [\<lparr>id_te = 1, when_sec = 1000000000, when_ms = 0, timeProc = 1,
                              finalizerProc = None, clientData_te = None\<rparr>,
                             \<lparr>id_te = 0, when_sec = 1000000000, when_ms = 0, timeProc = 1,
                              finalizerProc = None, clientData_te = None\<rparr>]\<rparr>,
       world = \<lparr>clock = (50, 0), polled = []\<rparr>, calls = []\<rparr>"


section \<open>Assumptions on the environment used for the clock-skew property\<close>

text \<open>
  The timers of a loop as aeCreateTimeEvent creates them: the identifiers are distinct and
  below timeEventNextId.
\<close>

definition timer_ids_ok :: "'a aeEventLoop \<Rightarrow> bool" where
  "timer_ids_ok el \<longleftrightarrow>
     distinct (map id_te (timeEventHead el)) \<and>
     (\<forall>te\<in>set (timeEventHead el). id_te te < timeEventNextId el)"






text \<open>
  The example program with well-behaved timer callbacks (function 3 creates a timer, every
  other function returns at once) and a clock that reads 50 s.
\<close>

definition plain_env :: "(unit, ex_world) aeEnv" where
  "plain_env =
     example_env
       \<lparr>call_time := (\<lambda>p (el, w) i cd.
          if p = 3
          then (AE_NOMORE, snd (aeCreateTimeEvent True (50, 0) el 0 1 None None), w)
          else (AE_NOMORE, el, w)),
        gettimeofday := (\<lambda>w. ((50, 0), w)),
        time_now := (\<lambda>w. (50, w))\<rparr>"


section \<open>The doubly linked list of adlist.c\<close>

text \<open>
  Nodes live in a store from addresses to node records; a node pointer is an address or
  null (\<open>None\<close>).  The list header holds the head, the tail, the three method pointers and
  the length.
\<close>

record 'v listNode =
  prev_n :: "nat option"
  next_n :: "nat option"
  value_n :: 'v

type_synonym 'v nodes = "nat \<Rightarrow> 'v listNode option"

record adlist =
  head :: "nat option"
  tail :: "nat option"
  dup_m :: "funptr option"
  free_m :: "funptr option"
  match_m :: "funptr option"
  len :: nat

text \<open>listCreate; the flag says whether zmalloc returned memory.\<close>

definition listCreate :: "bool \<Rightarrow> adlist option" where
  "listCreate ok =
     (if \<not> ok then None
      else Some \<lparr>head = None, tail = None, dup_m = None, free_m = None, match_m = None, len = 0\<rparr>)"

text \<open>
  listAddNodeTail.  \<open>node\<close> is what zmalloc returned for the new node.  The result is
  whether the list was returned (False: NULL, the list is unchanged), the store and the
  header; \<open>None\<close> is undefined behaviour (a tail pointer that is null or dangling in a list
  with \<open>len > 0\<close>).
\<close>

definition listAddNodeTail ::
  "'v nodes \<Rightarrow> adlist \<Rightarrow> 'v \<Rightarrow> nat option \<Rightarrow> (bool \<times> 'v nodes \<times> adlist) option" where
  "listAddNodeTail h l v node =
     (case node of
        None \<Rightarrow> Some (False, h, l)
      | Some a \<Rightarrow>
          if len l = 0
          then Some (True, h(a \<mapsto> \<lparr>prev_n = None, next_n = None, value_n = v\<rparr>),
                     l\<lparr>head := Some a, tail := Some a, len := len l + 1\<rparr>)
          else
            (case tail l of
               None \<Rightarrow> None
             | Some t \<Rightarrow>
                 let h1 = h(a \<mapsto> \<lparr>prev_n = Some t, next_n = None, value_n = v\<rparr>) in
                 (case h1 t of
                    None \<Rightarrow> None
                  | Some tn \<Rightarrow>
                      Some (True, h1(t \<mapsto> tn\<lparr>next_n := Some a\<rparr>),
                            l\<lparr>tail := Some a, len := len l + 1\<rparr>))))"

text \<open>
  \<open>while(index-- && n) n = n->next;\<close> (or \<open>n->prev\<close>): \<open>k\<close> is the value of \<open>index\<close>, \<open>step\<close>
  the field followed.  \<open>None\<close> is undefined behaviour: a node that is not in the store.
\<close>

fun walk :: "('v listNode \<Rightarrow> nat option) \<Rightarrow> 'v nodes \<Rightarrow> nat \<Rightarrow> nat option \<Rightarrow> nat option option" where
  "walk step h 0 n = Some n"
| "walk step h (Suc k) None = Some None"
| "walk step h (Suc k) (Some a) =
     (case h a of None \<Rightarrow> None | Some nd \<Rightarrow> walk step h k (step nd))"

definition LONG_MIN :: int where "LONG_MIN = - (2 ^ 63)"

text \<open>
  listIndex.  The index is a C \<open>long\<close>; negating LONG_MIN overflows, which is undefined.
  The result is the node found or null.
\<close>

definition listIndex :: "'v nodes \<Rightarrow> adlist \<Rightarrow> int \<Rightarrow> nat option option" where
  "listIndex h l index =
     (if index < 0
      then (if index = LONG_MIN then None
            else walk prev_n h (nat ((- index) - 1)) (tail l))
      else walk next_n h (nat index) (head l))"

text \<open>
  The invariant of the data model: the list header and the store hold the nodes at the
  addresses \<open>as\<close>, in this order.
\<close>

definition dll :: "'v nodes \<Rightarrow> adlist \<Rightarrow> nat list \<Rightarrow> bool" where
  "dll h l as \<longleftrightarrow>
     distinct as \<and> len l = length as \<and>
     head l = (if as = [] then None else Some (hd as)) \<and>
     tail l = (if as = [] then None else Some (last as)) \<and>
     (\<forall>i<length as. \<exists>nd. h (as ! i) = Some nd \<and>
        prev_n nd = (if i = 0 then None else Some (as ! (i - 1))) \<and>
        next_n nd = (if Suc i < length as then Some (as ! Suc i) else None))"

text \<open>A list of three nodes at the addresses 10, 20 and 30.\<close>

definition three_nodes :: "string nodes" where
  "three_nodes =
     [10 \<mapsto> \<lparr>prev_n = None, next_n = Some 20, value_n = ''a''\<rparr>,
      20 \<mapsto> \<lparr>prev_n = Some 10, next_n = Some 30, value_n = ''b''\<rparr>,
      30 \<mapsto> \<lparr>prev_n = Some 20, next_n = None, value_n = ''c''\<rparr>]"

definition three_list :: adlist where
  "three_list = \<lparr>head = Some 10, tail = Some 30, dup_m = None, free_m = None, match_m = None,
                  len = 3\<rparr>"

section \<open>Proofs: the registration table\<close>

lemma scan_down_cases:
  "(scan_down es k = - 1 \<and> (\<forall>j<k. mask_fe (es ! j) = AE_NONE)) \<or>
   (0 \<le> scan_down es k \<and> nat (scan_down es k) < k \<and>
    mask_fe (es ! nat (scan_down es k)) \<noteq> AE_NONE \<and>
    (\<forall>j<k. nat (scan_down es k) < j \<longrightarrow> mask_fe (es ! j) = AE_NONE))"
proof (induction k)
  case 0
  then show ?case by simp
next
  case (Suc k)
  show ?case
  proof (cases "mask_fe (es ! k) \<noteq> AE_NONE")
    case True
    then show ?thesis by auto
  next
    case False
    with Suc show ?thesis by (auto simp: less_Suc_eq)
  qed
qed

lemma create_inv:
  assumes "0 \<le> n" "aeCreateEventLoop api a b c now n = Some el"
  shows "slots_below_maxfd el \<and> maxfd_registered el"
  using assms
  by (auto simp: aeCreateEventLoop_def slots_below_maxfd_def maxfd_registered_def fresh_slot_def
      split: if_splits prod.splits)

lemma add_cases:
  assumes "aeCreateFileEvent api el fd m p d = Some (r, el')"
  shows "(r = AE_ERR \<and> events el' = events el \<and> maxfd el' = maxfd el \<and> setsize el' = setsize el) \<or>
         (r = AE_OK \<and> 0 \<le> fd \<and> fd < setsize el \<and> nat fd < length (events el) \<and>
          events el' = (events el)[nat fd := add_to_slot (events el ! nat fd) m p d] \<and>
          maxfd el' = max (maxfd el) fd \<and> setsize el' = setsize el)"
  using assms unfolding aeCreateFileEvent_def
  by (simp split: if_splits prod.splits) auto

lemma mask_add_to_slot: "mask_fe (add_to_slot fe m p d) = mask_fe fe OR m"
  by (simp add: add_to_slot_def Let_def)

lemma add_inv:
  assumes "slots_below_maxfd el" "aeCreateFileEvent api el fd m p d = Some (r, el')"
  shows "slots_below_maxfd el'"
  using add_cases [OF assms(2)]
proof
  assume "r = AE_ERR \<and> events el' = events el \<and> maxfd el' = maxfd el \<and> setsize el' = setsize el"
  with assms(1) show ?thesis by (simp add: slots_below_maxfd_def)
next
  assume ok: "r = AE_OK \<and> 0 \<le> fd \<and> fd < setsize el \<and> nat fd < length (events el) \<and>
          events el' = (events el)[nat fd := add_to_slot (events el ! nat fd) m p d] \<and>
          maxfd el' = max (maxfd el) fd \<and> setsize el' = setsize el"
  from assms(1) have inv: "length (events el) = nat (setsize el)" "- 1 \<le> maxfd el" "maxfd el < setsize el"
    and below: "\<And>i. i < length (events el) \<Longrightarrow> mask_fe (events el ! i) \<noteq> AE_NONE \<Longrightarrow> int i \<le> maxfd el"
    by (auto simp: slots_below_maxfd_def)
  have "int i \<le> maxfd el'" if i: "i < length (events el')" "mask_fe (events el' ! i) \<noteq> AE_NONE" for i
  proof (cases "i = nat fd")
    case True
    with ok show ?thesis by simp
  next
    case False
    with ok i have "i < length (events el)" "mask_fe (events el ! i) \<noteq> AE_NONE" by auto
    from below [OF this] ok show ?thesis by simp
  qed
  with ok inv show ?thesis by (simp add: slots_below_maxfd_def)
qed

lemma add_registered:
  assumes "slots_below_maxfd el" "maxfd_registered el" "m \<noteq> AE_NONE"
    "aeCreateFileEvent api el fd m p d = Some (r, el')"
  shows "maxfd_registered el'"
  using add_cases [OF assms(4)]
proof
  assume "r = AE_ERR \<and> events el' = events el \<and> maxfd el' = maxfd el \<and> setsize el' = setsize el"
  with assms(2) show ?thesis by (simp add: maxfd_registered_def)
next
  assume ok: "r = AE_OK \<and> 0 \<le> fd \<and> fd < setsize el \<and> nat fd < length (events el) \<and>
          events el' = (events el)[nat fd := add_to_slot (events el ! nat fd) m p d] \<and>
          maxfd el' = max (maxfd el) fd \<and> setsize el' = setsize el"
  have new: "mask_fe (events el' ! nat fd) \<noteq> AE_NONE"
    using ok assms(3) by (simp add: mask_add_to_slot AE_NONE_def or_eq_0_iff)
  show ?thesis
  proof (cases "fd \<ge> maxfd el")
    case True
    with ok new show ?thesis by (simp add: maxfd_registered_def max_def)
  next
    case False
    with ok have m: "maxfd el' = maxfd el" "nat (maxfd el) \<noteq> nat fd" "0 \<le> maxfd el" by auto
    with assms(2) have "nat (maxfd el) < length (events el)" "mask_fe (events el ! nat (maxfd el)) \<noteq> AE_NONE"
      by (auto simp: maxfd_registered_def)
    with m ok show ?thesis by (simp add: maxfd_registered_def)
  qed
qed

lemma del_cases:
  assumes "aeDeleteFileEvent api el fd m = Some el'"
  shows "(el' = el \<and> (fd \<ge> setsize el \<or> mask_fe (events el ! nat fd) = AE_NONE)) \<or>
         (0 \<le> fd \<and> fd < setsize el \<and> nat fd < length (events el) \<and>
          mask_fe (events el ! nat fd) \<noteq> AE_NONE \<and>
          events el' = (events el)[nat fd := (events el ! nat fd)
                          \<lparr>mask_fe := mask_fe (events el ! nat fd) AND NOT m\<rparr>] \<and>
          setsize el' = setsize el \<and>
          maxfd el' = (if fd = maxfd el \<and> mask_fe (events el ! nat fd) AND NOT m = AE_NONE
                       then scan_down (events el') (nat (maxfd el)) else maxfd el))"
  using assms unfolding aeDeleteFileEvent_def
  by (auto simp: Let_def split: if_splits)

lemma del_inv:
  assumes "slots_below_maxfd el" "aeDeleteFileEvent api el fd m = Some el'"
  shows "slots_below_maxfd el'"
  using del_cases [OF assms(2)]
proof
  assume "el' = el \<and> (fd \<ge> setsize el \<or> mask_fe (events el ! nat fd) = AE_NONE)"
  with assms(1) show ?thesis by simp
next
  assume c: "0 \<le> fd \<and> fd < setsize el \<and> nat fd < length (events el) \<and>
          mask_fe (events el ! nat fd) \<noteq> AE_NONE \<and>
          events el' = (events el)[nat fd := (events el ! nat fd)
                          \<lparr>mask_fe := mask_fe (events el ! nat fd) AND NOT m\<rparr>] \<and>
          setsize el' = setsize el \<and>
          maxfd el' = (if fd = maxfd el \<and> mask_fe (events el ! nat fd) AND NOT m = AE_NONE
                       then scan_down (events el') (nat (maxfd el)) else maxfd el)"
  define es where "es = events el'"
  from assms(1) have inv: "length (events el) = nat (setsize el)" "- 1 \<le> maxfd el" "maxfd el < setsize el"
    and below: "\<And>i. i < length (events el) \<Longrightarrow> mask_fe (events el ! i) \<noteq> AE_NONE \<Longrightarrow> int i \<le> maxfd el"
    by (auto simp: slots_below_maxfd_def)
  have len: "length es = length (events el)" using c by (simp add: es_def)
  have fdle: "fd \<le> maxfd el" using below [of "nat fd"] c by simp
  have other: "int i \<le> maxfd el" if i: "i < length es" "mask_fe (es ! i) \<noteq> AE_NONE" for i
  proof (cases "i = nat fd")
    case True
    with fdle c show ?thesis by simp
  next
    case False
    with c i have "i < length (events el)" "mask_fe (events el ! i) \<noteq> AE_NONE" by (auto simp: es_def)
    from below [OF this] show ?thesis .
  qed
  show ?thesis
  proof (cases "fd = maxfd el \<and> mask_fe (events el ! nat fd) AND NOT m = AE_NONE")
    case False
    with c have "maxfd el' = maxfd el" by simp
    with c inv other show ?thesis by (simp add: slots_below_maxfd_def es_def)
  next
    case True
    from c have eq: "maxfd el' = (if fd = maxfd el \<and> mask_fe (events el ! nat fd) AND NOT m = AE_NONE
                       then scan_down (events el') (nat (maxfd el)) else maxfd el)" by blast
    have mx: "maxfd el' = scan_down es (nat (maxfd el))"
      unfolding es_def by (subst eq, rule if_P, rule True)
    from True have t2: "mask_fe (events el ! nat fd) AND NOT m = AE_NONE" by blast
    have none_fd: "mask_fe (es ! nat fd) = AE_NONE"
      using t2 c by (simp add: es_def)
    have lt: "i < nat (maxfd el)" if i: "i < length es" "mask_fe (es ! i) \<noteq> AE_NONE" for i
    proof -
      from other [OF i] have "int i \<le> maxfd el" .
      moreover from i(2) none_fd have "i \<noteq> nat fd" by auto
      ultimately show ?thesis using True by linarith
    qed
    from scan_down_cases [of es "nat (maxfd el)"]
    show ?thesis
    proof
      assume a: "scan_down es (nat (maxfd el)) = - 1 \<and> (\<forall>j<nat (maxfd el). mask_fe (es ! j) = AE_NONE)"
      have "\<forall>i<length es. mask_fe (es ! i) \<noteq> AE_NONE \<longrightarrow> int i \<le> - 1"
        using lt a by blast
      with mx a inv c len show ?thesis
        by (simp add: slots_below_maxfd_def es_def)
    next
      assume b: "0 \<le> scan_down es (nat (maxfd el)) \<and> nat (scan_down es (nat (maxfd el))) < nat (maxfd el) \<and>
        mask_fe (es ! nat (scan_down es (nat (maxfd el)))) \<noteq> AE_NONE \<and>
        (\<forall>j<nat (maxfd el). nat (scan_down es (nat (maxfd el))) < j \<longrightarrow> mask_fe (es ! j) = AE_NONE)"
      have "int i \<le> scan_down es (nat (maxfd el))" if i: "i < length es" "mask_fe (es ! i) \<noteq> AE_NONE" for i
      proof -
        from lt [OF i] b i(2) have "\<not> nat (scan_down es (nat (maxfd el))) < i" by blast
        with b show ?thesis by linarith
      qed
      moreover from b inv have "scan_down es (nat (maxfd el)) < setsize el" "- 1 \<le> scan_down es (nat (maxfd el))"
        by linarith+
      ultimately show ?thesis using mx inv c len
        by (simp add: slots_below_maxfd_def es_def)
    qed
  qed
qed

lemma del_registered:
  assumes "slots_below_maxfd el" "maxfd_registered el" "aeDeleteFileEvent api el fd m = Some el'"
  shows "maxfd_registered el'"
  using del_cases [OF assms(3)]
proof
  assume "el' = el \<and> (fd \<ge> setsize el \<or> mask_fe (events el ! nat fd) = AE_NONE)"
  with assms(2) show ?thesis by simp
next
  assume c: "0 \<le> fd \<and> fd < setsize el \<and> nat fd < length (events el) \<and>
          mask_fe (events el ! nat fd) \<noteq> AE_NONE \<and>
          events el' = (events el)[nat fd := (events el ! nat fd)
                          \<lparr>mask_fe := mask_fe (events el ! nat fd) AND NOT m\<rparr>] \<and>
          setsize el' = setsize el \<and>
          maxfd el' = (if fd = maxfd el \<and> mask_fe (events el ! nat fd) AND NOT m = AE_NONE
                       then scan_down (events el') (nat (maxfd el)) else maxfd el)"
  define es where "es = events el'"
  from assms(1) have inv: "length (events el) = nat (setsize el)" "- 1 \<le> maxfd el" "maxfd el < setsize el"
    and below: "\<And>i. i < length (events el) \<Longrightarrow> mask_fe (events el ! i) \<noteq> AE_NONE \<Longrightarrow> int i \<le> maxfd el"
    by (auto simp: slots_below_maxfd_def)
  have len: "length es = length (events el)" using c by (simp add: es_def)
  have fdle: "fd \<le> maxfd el" using below [of "nat fd"] c by simp
  show ?thesis
  proof (cases "fd = maxfd el \<and> mask_fe (events el ! nat fd) AND NOT m = AE_NONE")
    case True
    from c have eq: "maxfd el' = (if fd = maxfd el \<and> mask_fe (events el ! nat fd) AND NOT m = AE_NONE
                       then scan_down (events el') (nat (maxfd el)) else maxfd el)" by blast
    have mx: "maxfd el' = scan_down es (nat (maxfd el))"
      unfolding es_def by (subst eq, rule if_P, rule True)
    from scan_down_cases [of es "nat (maxfd el)"]
    show ?thesis
    proof
      assume "scan_down es (nat (maxfd el)) = - 1 \<and> (\<forall>j<nat (maxfd el). mask_fe (es ! j) = AE_NONE)"
      with mx show ?thesis by (simp add: maxfd_registered_def)
    next
      assume b: "0 \<le> scan_down es (nat (maxfd el)) \<and> nat (scan_down es (nat (maxfd el))) < nat (maxfd el) \<and>
        mask_fe (es ! nat (scan_down es (nat (maxfd el)))) \<noteq> AE_NONE \<and>
        (\<forall>j<nat (maxfd el). nat (scan_down es (nat (maxfd el))) < j \<longrightarrow> mask_fe (es ! j) = AE_NONE)"
      moreover from b inv len have "nat (scan_down es (nat (maxfd el))) < length es" by linarith
      ultimately show ?thesis using mx by (simp add: maxfd_registered_def es_def)
    qed
  next
    case False
    with c have mx: "maxfd el' = maxfd el" by simp
    from fdle c have nn: "0 \<le> maxfd el" by linarith
    with assms(2) have reg: "nat (maxfd el) < length (events el)" "mask_fe (events el ! nat (maxfd el)) \<noteq> AE_NONE"
      by (auto simp: maxfd_registered_def)
    have "mask_fe (es ! nat (maxfd el)) \<noteq> AE_NONE"
    proof (cases "fd = maxfd el")
      case True
      with False c show ?thesis by (simp add: es_def)
    next
      case False
      with c nn have "nat fd \<noteq> nat (maxfd el)" by linarith
      with c reg show ?thesis by (simp add: es_def)
    qed
    with mx nn reg len show ?thesis by (simp add: maxfd_registered_def es_def)
  qed
qed

lemma resize_cases:
  assumes "aeResizeSetSize api el n = Some (r, el')"
  shows "(events el' = events el \<and> maxfd el' = maxfd el \<and> setsize el' = setsize el) \<or>
         (r = AE_OK \<and> n \<noteq> setsize el \<and> maxfd el < n \<and> 0 \<le> maxfd el + 1 \<and>
          events el' = clear_masks_from (nat (maxfd el + 1)) (zrealloc fresh_slot (events el) (nat n)) \<and>
          setsize el' = n \<and> maxfd el' = maxfd el)"
  using assms unfolding aeResizeSetSize_def
  by (auto split: if_splits prod.splits)

lemma length_clear_masks_from: "length (clear_masks_from k es) = length es"
  by (simp add: clear_masks_from_def)

lemma length_zrealloc: "length (zrealloc j xs n) = n"
  by (simp add: zrealloc_def)

lemma nth_clear_masks_from_below: "i < k \<Longrightarrow> i < length es \<Longrightarrow> clear_masks_from k es ! i = es ! i"
  by (simp add: clear_masks_from_def nth_append)

lemma nth_clear_masks_from_above:
  "k \<le> i \<Longrightarrow> i < length es \<Longrightarrow> mask_fe (clear_masks_from k es ! i) = AE_NONE"
  by (simp add: clear_masks_from_def nth_append)

lemma nth_zrealloc: "i < n \<Longrightarrow> i < length xs \<Longrightarrow> zrealloc j xs n ! i = xs ! i"
  by (simp add: zrealloc_def nth_append)

lemma resize_slot:
  assumes "length es = nat s" "m < s" "m < n" "0 \<le> m + 1" "i < nat (m + 1)"
  shows "clear_masks_from (nat (m + 1)) (zrealloc fresh_slot es (nat n)) ! i = es ! i"
proof -
  from assms have "i < nat n" "i < length es" by linarith+
  then show ?thesis
    using assms(5) by (simp add: nth_clear_masks_from_below nth_zrealloc length_zrealloc)
qed

lemma resize_inv:
  assumes "slots_below_maxfd el" "aeResizeSetSize api el n = Some (r, el')"
  shows "slots_below_maxfd el'"
  using resize_cases [OF assms(2)]
proof
  assume "events el' = events el \<and> maxfd el' = maxfd el \<and> setsize el' = setsize el"
  with assms(1) show ?thesis by (simp add: slots_below_maxfd_def)
next
  assume c: "r = AE_OK \<and> n \<noteq> setsize el \<and> maxfd el < n \<and> 0 \<le> maxfd el + 1 \<and>
          events el' = clear_masks_from (nat (maxfd el + 1)) (zrealloc fresh_slot (events el) (nat n)) \<and>
          setsize el' = n \<and> maxfd el' = maxfd el"
  from assms(1) have inv: "length (events el) = nat (setsize el)" "- 1 \<le> maxfd el" "maxfd el < setsize el"
    and below: "\<And>i. i < length (events el) \<Longrightarrow> mask_fe (events el ! i) \<noteq> AE_NONE \<Longrightarrow> int i \<le> maxfd el"
    by (auto simp: slots_below_maxfd_def)
  have len: "length (events el') = nat n"
    using c by (simp add: length_clear_masks_from length_zrealloc)
  have "int i \<le> maxfd el'" if i: "i < length (events el')" "mask_fe (events el' ! i) \<noteq> AE_NONE" for i
  proof (cases "i < nat (maxfd el + 1)")
    case True
    with c show ?thesis by linarith
  next
    case False
    with i(1) len c have "mask_fe (events el' ! i) = AE_NONE"
      by (simp add: nth_clear_masks_from_above length_zrealloc)
    with i(2) show ?thesis by simp
  qed
  with len c inv show ?thesis by (simp add: slots_below_maxfd_def)
qed

lemma resize_registered:
  assumes "slots_below_maxfd el" "maxfd_registered el" "aeResizeSetSize api el n = Some (r, el')"
  shows "maxfd_registered el'"
  using resize_cases [OF assms(3)]
proof
  assume "events el' = events el \<and> maxfd el' = maxfd el \<and> setsize el' = setsize el"
  with assms(2) show ?thesis by (simp add: maxfd_registered_def)
next
  assume c: "r = AE_OK \<and> n \<noteq> setsize el \<and> maxfd el < n \<and> 0 \<le> maxfd el + 1 \<and>
          events el' = clear_masks_from (nat (maxfd el + 1)) (zrealloc fresh_slot (events el) (nat n)) \<and>
          setsize el' = n \<and> maxfd el' = maxfd el"
  from assms(1) have inv: "length (events el) = nat (setsize el)" "- 1 \<le> maxfd el" "maxfd el < setsize el"
    by (auto simp: slots_below_maxfd_def)
  have len: "length (events el') = nat n"
    using c by (simp add: length_clear_masks_from length_zrealloc)
  show ?thesis
  proof (cases "maxfd el = - 1")
    case True
    with c show ?thesis by (simp add: maxfd_registered_def)
  next
    case False
    with inv have nn: "0 \<le> maxfd el" by linarith
    with assms(2) have reg: "mask_fe (events el ! nat (maxfd el)) \<noteq> AE_NONE"
      by (auto simp: maxfd_registered_def)
    from nn have "nat (maxfd el) < nat (maxfd el + 1)" by linarith
    from resize_slot [OF inv(1) inv(3) _ _ this, of n] c
    have "events el' ! nat (maxfd el) = events el ! nat (maxfd el)" by simp
    with reg nn c len show ?thesis by (simp add: maxfd_registered_def)
  qed
qed

lemma applyCall_inv:
  assumes "slots_below_maxfd el" "applyCall api el c = Some el'"
  shows "slots_below_maxfd el'"
  using assms by (cases c) (auto dest: add_inv del_inv resize_inv)

lemma applyCall_registered:
  assumes "slots_below_maxfd el" "maxfd_registered el" "registers c" "applyCall api el c = Some el'"
  shows "maxfd_registered el'"
  using assms by (cases c) (auto dest: add_registered del_registered resize_registered)

lemma applyCalls_inv:
  "slots_below_maxfd el \<Longrightarrow> applyCalls api el cs = Some el' \<Longrightarrow> slots_below_maxfd el'"
  by (induction cs arbitrary: el) (auto split: option.splits dest: applyCall_inv)

lemma applyCalls_registered:
  "slots_below_maxfd el \<Longrightarrow> maxfd_registered el \<Longrightarrow> \<forall>c\<in>set cs. registers c \<Longrightarrow>
   applyCalls api el cs = Some el' \<Longrightarrow> maxfd_registered el'"
proof (induction cs arbitrary: el)
  case Nil
  then show ?case by simp
next
  case (Cons c cs)
  from Cons.prems(4) obtain el1 where s: "applyCall api el c = Some el1" "applyCalls api el1 cs = Some el'"
    by (auto split: option.splits)
  from Cons.prems s have "slots_below_maxfd el1" "maxfd_registered el1"
    by (auto dest: applyCall_inv applyCall_registered)
  with Cons.IH [of el1] Cons.prems(3) s(2) show ?case by simp
qed

lemma largest_registered_maxfd:
  assumes "slots_below_maxfd el" "maxfd_registered el"
  shows "largest_registered (events el) (maxfd el)"
proof -
  from assms(1) have below: "\<forall>i<length (events el). mask_fe (events el ! i) \<noteq> AE_NONE \<longrightarrow> int i \<le> maxfd el"
    by (simp add: slots_below_maxfd_def)
  show ?thesis
  proof (cases "\<exists>i<length (events el). mask_fe (events el ! i) \<noteq> AE_NONE")
    case True
    then obtain i where "i < length (events el)" "mask_fe (events el ! i) \<noteq> AE_NONE" by blast
    with below have "int i \<le> maxfd el" by blast
    then have "maxfd el \<noteq> - 1" by linarith
    with assms(2) have "0 \<le> maxfd el \<and> nat (maxfd el) < length (events el) \<and>
      mask_fe (events el ! nat (maxfd el)) \<noteq> AE_NONE"
      by (simp add: maxfd_registered_def)
    with True below show ?thesis by (simp add: largest_registered_def)
  next
    case False
    with assms(2) have "maxfd el = - 1" by (auto simp: maxfd_registered_def)
    with False below show ?thesis by (simp add: largest_registered_def)
  qed
qed

lemma applyCall_defined:
  assumes "slots_below_maxfd el" "is_descriptor c"
  shows "\<exists>el'. applyCall api el c = Some el'"
proof (cases c)
  case (CreateFileEvent fd m p d)
  with assms show ?thesis
    by (auto simp: aeCreateFileEvent_def slots_below_maxfd_def split: prod.splits)
next
  case (DeleteFileEvent fd m)
  with assms show ?thesis
    by (auto simp: aeDeleteFileEvent_def slots_below_maxfd_def Let_def)
next
  case (ResizeSetSize n)
  with assms show ?thesis
    by (auto simp: aeResizeSetSize_def slots_below_maxfd_def split: prod.splits)
qed

lemma applyCalls_defined:
  "slots_below_maxfd el \<Longrightarrow> \<forall>c\<in>set cs. is_descriptor c \<Longrightarrow> \<exists>el'. applyCalls api el cs = Some el'"
proof (induction cs arbitrary: el)
  case Nil
  then show ?case by simp
next
  case (Cons c cs)
  from applyCall_defined [of el c api] Cons.prems obtain el1 where s: "applyCall api el c = Some el1"
    by auto
  with Cons.prems(1) have "slots_below_maxfd el1" by (rule applyCall_inv)
  from Cons.IH [OF this] Cons.prems(2) s show ?case by simp
qed

text \<open>
  Claim C1, amended.  For every loop that aeCreateEventLoop returns (with a capacity
  \<open>n \<ge> 0\<close>) and every sequence of aeCreateFileEvent, aeDeleteFileEvent and
  aeResizeSetSize calls on descriptors (nonnegative integers), the calls are defined and the
  resulting loop satisfies: every slot with mask other than AE_NONE has \<open>fd \<le> maxfd\<close>
  (so every slot above \<open>maxfd\<close> has mask AE_NONE) and \<open>maxfd < setsize\<close>; and when no
  aeCreateFileEvent of the sequence was called with the mask AE_NONE, \<open>maxfd\<close> is the
  largest descriptor with a mask other than AE_NONE, or -1 when no slot is registered.
\<close>

theorem registration_invariant:
  assumes "0 \<le> n" and "aeCreateEventLoop api a b c now n = Some el0"
    and "\<forall>c\<in>set cs. is_descriptor c"
  shows "\<exists>el. applyCalls api el0 cs = Some el \<and> slots_below_maxfd el \<and>
           ((\<forall>c\<in>set cs. registers c) \<longrightarrow> largest_registered (events el) (maxfd el))"
proof -
  from create_inv [OF assms(1,2)] have i0: "slots_below_maxfd el0" "maxfd_registered el0" by simp_all
  from applyCalls_defined [OF i0(1) assms(3)] obtain el where el: "applyCalls api el0 cs = Some el"
    by blast
  from applyCalls_inv [OF i0(1) el] have i1: "slots_below_maxfd el" .
  have "largest_registered (events el) (maxfd el)" if "\<forall>c\<in>set cs. registers c"
    using largest_registered_maxfd [OF i1 applyCalls_registered [OF i0 that el]] .
  with el i1 show ?thesis by blast
qed

theorem registration_invariant_witness:
  "aeCreateEventLoop accept_all True True True 0 8 = Some example_loop \<and>
   (\<exists>el. applyCalls accept_all example_loop example_calls = Some el \<and> slots_below_maxfd el \<and>
          largest_registered (events el) (maxfd el))"
proof -
  have c: "aeCreateEventLoop accept_all True True True 0 8 = Some example_loop"
    by (simp add: aeCreateEventLoop_def accept_all_def example_loop_def)
  have d: "\<forall>c\<in>set example_calls. is_descriptor c"
    by (simp add: example_calls_def)
  have r: "\<forall>c\<in>set example_calls. registers c"
    by (simp add: example_calls_def AE_NONE_def AE_READABLE_def AE_WRITABLE_def)
  from registration_invariant [OF _ c d] r c show ?thesis by simp
qed

text \<open>
  Claim C1 as stated fails: aeCreateFileEvent with the mask AE_NONE on descriptor 5 of a
  fresh loop returns AE_OK and sets \<open>maxfd\<close> to 5, while every slot still has the mask
  AE_NONE, so \<open>maxfd\<close> is neither the largest registered descriptor nor -1.
\<close>

theorem registration_counterexample:
  "map_option (\<lambda>el. (maxfd el, map mask_fe (events el)))
     (run_calls accept_all 8 [CreateFileEvent 5 AE_NONE 1 None])
   = Some (5, [0, 0, 0, 0, 0, 0, 0, 0]) \<and>
   map_option (\<lambda>el. largest_registered (events el) (maxfd el))
     (run_calls accept_all 8 [CreateFileEvent 5 AE_NONE 1 None])
   = Some False"
  by (simp add: run_calls_def aeCreateEventLoop_def accept_all_def aeCreateFileEvent_def
      add_to_slot_def fresh_slot_def AE_NONE_def AE_READABLE_def AE_WRITABLE_def AE_OK_def
      largest_registered_def numeral_eq_Suc)

lemma registered_loop_reached:
  "applyCalls accept_all example_loop
     [CreateFileEvent 3 AE_READABLE 1 None, CreateFileEvent 5 AE_WRITABLE 2 (Some 7)]
   = Some registered_loop"
  by (simp add: example_loop_def registered_loop_def accept_all_def aeCreateFileEvent_def
      add_to_slot_def fresh_slot_def AE_NONE_def AE_READABLE_def AE_WRITABLE_def AE_OK_def
      numeral_eq_Suc)

lemma slots_below_maxfd_registered_loop: "slots_below_maxfd registered_loop"
proof -
  have "aeCreateEventLoop accept_all True True True 0 8 = Some example_loop"
    by (simp add: aeCreateEventLoop_def accept_all_def example_loop_def)
  from create_inv [OF _ this] have "slots_below_maxfd example_loop" by simp
  from applyCalls_inv [OF this registered_loop_reached] show ?thesis .
qed

text \<open>
  Claim C7.  On a loop that satisfies the invariant of the data model and for a descriptor
  \<open>fd \<ge> 0\<close>: aeDeleteFileEvent returns the loop unchanged when \<open>fd \<ge> setsize\<close> or the
  slot's mask is AE_NONE; otherwise it clears exactly the bits of \<open>m\<close> in the slot's mask
  and changes no other slot, and when that leaves the slot of \<open>fd = maxfd\<close> with the mask
  AE_NONE, the new \<open>maxfd\<close> is the largest descriptor with a mask other than AE_NONE, or
  -1 if none remains (in every other case \<open>maxfd\<close> is kept).
\<close>

theorem aeDeleteFileEvent_spec:
  assumes "slots_below_maxfd el" and "0 \<le> fd"
  shows "(fd \<ge> setsize el \<or> (fd < setsize el \<and> mask_fe (events el ! nat fd) = AE_NONE)
            \<longrightarrow> aeDeleteFileEvent api el fd m = Some el) \<and>
         (fd < setsize el \<and> mask_fe (events el ! nat fd) \<noteq> AE_NONE \<longrightarrow>
            (\<exists>el'. aeDeleteFileEvent api el fd m = Some el' \<and>
               events el' = (events el)[nat fd := (events el ! nat fd)
                               \<lparr>mask_fe := mask_fe (events el ! nat fd) AND NOT m\<rparr>] \<and>
               setsize el' = setsize el \<and>
               (if fd = maxfd el \<and> mask_fe (events el' ! nat fd) = AE_NONE
                then largest_registered (events el') (maxfd el')
                else maxfd el' = maxfd el)))"
proof (intro conjI impI)
  assume "fd \<ge> setsize el \<or> (fd < setsize el \<and> mask_fe (events el ! nat fd) = AE_NONE)"
  with assms show "aeDeleteFileEvent api el fd m = Some el"
    by (auto simp: aeDeleteFileEvent_def slots_below_maxfd_def)
next
  assume a: "fd < setsize el \<and> mask_fe (events el ! nat fd) \<noteq> AE_NONE"
  with assms have fd: "nat fd < length (events el)"
    by (simp add: slots_below_maxfd_def)
  with a assms(2) obtain el' where d: "aeDeleteFileEvent api el fd m = Some el'"
    by (auto simp: aeDeleteFileEvent_def Let_def)
  from del_cases [OF d] a
  have c: "events el' = (events el)[nat fd := (events el ! nat fd)
                          \<lparr>mask_fe := mask_fe (events el ! nat fd) AND NOT m\<rparr>]"
          "setsize el' = setsize el"
          "maxfd el' = (if fd = maxfd el \<and> mask_fe (events el ! nat fd) AND NOT m = AE_NONE
                       then scan_down (events el') (nat (maxfd el)) else maxfd el)"
    by auto
  from c(1) fd have new: "mask_fe (events el' ! nat fd) = mask_fe (events el ! nat fd) AND NOT m"
    by simp
  have reg: "fd = maxfd el \<and> mask_fe (events el' ! nat fd) = AE_NONE \<Longrightarrow>
      largest_registered (events el') (maxfd el')"
  proof -
    assume t: "fd = maxfd el \<and> mask_fe (events el' ! nat fd) = AE_NONE"
    define es where "es = events el'"
    from assms(1) d have i1: "slots_below_maxfd el'" by (rule del_inv)
    from t new have cond: "fd = maxfd el \<and> mask_fe (events el ! nat fd) AND NOT m = AE_NONE"
      by metis
    have mx: "maxfd el' = scan_down es (nat (maxfd el))"
      unfolding es_def by (subst c(3), rule if_P, rule cond)
    from assms(1) have le: "maxfd el < setsize el" "length (events el) = nat (setsize el)"
      by (simp_all add: slots_below_maxfd_def)
    have len: "length es = length (events el)" by (simp add: es_def c(1))
    have "maxfd_registered el'"
      using scan_down_cases [of es "nat (maxfd el)"]
    proof
      assume "scan_down es (nat (maxfd el)) = - 1 \<and> (\<forall>j<nat (maxfd el). mask_fe (es ! j) = AE_NONE)"
      with mx show ?thesis by (simp add: maxfd_registered_def)
    next
      assume b: "0 \<le> scan_down es (nat (maxfd el)) \<and> nat (scan_down es (nat (maxfd el))) < nat (maxfd el) \<and>
        mask_fe (es ! nat (scan_down es (nat (maxfd el)))) \<noteq> AE_NONE \<and>
        (\<forall>j<nat (maxfd el). nat (scan_down es (nat (maxfd el))) < j \<longrightarrow> mask_fe (es ! j) = AE_NONE)"
      moreover from b le len have "nat (scan_down es (nat (maxfd el))) < length es" by linarith
      ultimately show ?thesis using mx by (simp add: maxfd_registered_def es_def)
    qed
    with i1 show ?thesis by (rule largest_registered_maxfd)
  qed
  have keep: "\<not> (fd = maxfd el \<and> mask_fe (events el' ! nat fd) = AE_NONE) \<Longrightarrow> maxfd el' = maxfd el"
  proof -
    assume "\<not> (fd = maxfd el \<and> mask_fe (events el' ! nat fd) = AE_NONE)"
    with new have "\<not> (fd = maxfd el \<and> mask_fe (events el ! nat fd) AND NOT m = AE_NONE)"
      by metis
    then show ?thesis by (subst c(3), intro if_not_P)
  qed
  from d c(1,2) reg keep
  show "\<exists>el'. aeDeleteFileEvent api el fd m = Some el' \<and>
               events el' = (events el)[nat fd := (events el ! nat fd)
                               \<lparr>mask_fe := mask_fe (events el ! nat fd) AND NOT m\<rparr>] \<and>
               setsize el' = setsize el \<and>
               (if fd = maxfd el \<and> mask_fe (events el' ! nat fd) = AE_NONE
                then largest_registered (events el') (maxfd el')
                else maxfd el' = maxfd el)"
    by (intro exI [of _ el']) (simp only: split: if_split, blast)
qed

theorem aeDeleteFileEvent_spec_witness:
  "slots_below_maxfd registered_loop \<and>
   aeDeleteFileEvent accept_all registered_loop 9 AE_READABLE = Some registered_loop \<and>
   aeDeleteFileEvent accept_all registered_loop 4 AE_READABLE = Some registered_loop \<and>
   (\<exists>el'. aeDeleteFileEvent accept_all registered_loop 5 AE_WRITABLE = Some el' \<and>
      mask_fe (events el' ! 5) = AE_NONE \<and> maxfd el' = 3 \<and>
      largest_registered (events el') (maxfd el'))"
proof -
  note s = slots_below_maxfd_registered_loop
  have a: "aeDeleteFileEvent accept_all registered_loop 9 AE_READABLE = Some registered_loop"
    using aeDeleteFileEvent_spec [OF s, of 9 accept_all AE_READABLE]
    by (simp add: registered_loop_def)
  have b: "aeDeleteFileEvent accept_all registered_loop 4 AE_READABLE = Some registered_loop"
    using aeDeleteFileEvent_spec [OF s, of 4 accept_all AE_READABLE]
    by (simp add: registered_loop_def fresh_slot_def)
  have c: "\<exists>el'. aeDeleteFileEvent accept_all registered_loop 5 AE_WRITABLE = Some el' \<and>
      mask_fe (events el' ! 5) = AE_NONE \<and> maxfd el' = 3 \<and>
      largest_registered (events el') (maxfd el')"
    using aeDeleteFileEvent_spec [OF s, of 5 accept_all AE_WRITABLE]
    by (auto simp: registered_loop_def fresh_slot_def AE_NONE_def AE_WRITABLE_def
        aeDeleteFileEvent_def accept_all_def numeral_eq_Suc)
  from s a b c show ?thesis by blast
qed

lemma add_ok_slot:
  assumes "aeCreateFileEvent api el fd m p d = Some (AE_OK, el')"
  shows "0 \<le> fd \<and> fd < setsize el \<and> nat fd < length (events el) \<and>
         length (events el') = length (events el) \<and> setsize el' = setsize el \<and>
         events el' ! nat fd = add_to_slot (events el ! nat fd) m p d"
  using add_cases [OF assms] by (auto simp: AE_OK_def AE_ERR_def)

text \<open>
  Claim C8.  aeCreateFileEvent is additive: when an add of AE_READABLE with callback \<open>f\<close>
  and then an add of AE_WRITABLE with callback \<open>g\<close> on the same descriptor both return
  AE_OK, then \<open>0 \<le> fd < setsize\<close>, both bits are or-ed into the slot's mask, the read
  callback is \<open>f\<close> and the write callback is \<open>g\<close>; the mask is exactly
  AE_READABLE|AE_WRITABLE when the slot's mask was a subset of the two directions before.
\<close>

theorem aeCreateFileEvent_additive:
  assumes "aeCreateFileEvent api el fd AE_READABLE f d1 = Some (AE_OK, el1)"
    and "aeCreateFileEvent api el1 fd AE_WRITABLE g d2 = Some (AE_OK, el2)"
  shows "0 \<le> fd \<and> fd < setsize el \<and>
         mask_fe (events el2 ! nat fd) = mask_fe (events el ! nat fd) OR AE_READABLE OR AE_WRITABLE \<and>
         rfileProc (events el2 ! nat fd) = Some f \<and>
         wfileProc (events el2 ! nat fd) = Some g \<and>
         (mask_fe (events el ! nat fd) \<in> {AE_NONE, AE_READABLE, AE_WRITABLE, AE_READABLE OR AE_WRITABLE}
            \<longrightarrow> mask_fe (events el2 ! nat fd) = AE_READABLE OR AE_WRITABLE)"
proof -
  from add_ok_slot [OF assms(1)] add_ok_slot [OF assms(2)]
  have fd: "0 \<le> fd" "fd < setsize el"
    and s: "events el2 ! nat fd =
            add_to_slot (add_to_slot (events el ! nat fd) AE_READABLE f d1) AE_WRITABLE g d2"
    by simp_all
  have m: "mask_fe (events el2 ! nat fd) = mask_fe (events el ! nat fd) OR AE_READABLE OR AE_WRITABLE"
    by (simp add: s mask_add_to_slot or.assoc)
  have r: "rfileProc (events el2 ! nat fd) = Some f"
    by (simp add: s add_to_slot_def AE_READABLE_def AE_WRITABLE_def)
  have w: "wfileProc (events el2 ! nat fd) = Some g"
    by (simp add: s add_to_slot_def AE_READABLE_def AE_WRITABLE_def)
  have "mask_fe (events el2 ! nat fd) = AE_READABLE OR AE_WRITABLE"
    if "mask_fe (events el ! nat fd) \<in> {AE_NONE, AE_READABLE, AE_WRITABLE, AE_READABLE OR AE_WRITABLE}"
    using that m by (auto simp: AE_NONE_def AE_READABLE_def AE_WRITABLE_def)
  with fd m r w show ?thesis by blast
qed

theorem aeCreateFileEvent_additive_witness:
  "\<exists>el1 el2. aeCreateFileEvent accept_all example_loop 3 AE_READABLE 10 (Some 1) = Some (AE_OK, el1) \<and>
     aeCreateFileEvent accept_all el1 3 AE_WRITABLE 20 (Some 2) = Some (AE_OK, el2) \<and>
     mask_fe (events example_loop ! 3) = AE_NONE \<and>
     mask_fe (events el2 ! 3) = AE_READABLE OR AE_WRITABLE \<and>
     rfileProc (events el2 ! 3) = Some 10 \<and> wfileProc (events el2 ! 3) = Some 20"
proof -
  obtain el1 where a: "aeCreateFileEvent accept_all example_loop 3 AE_READABLE 10 (Some 1) = Some (AE_OK, el1)"
    by (simp add: aeCreateFileEvent_def accept_all_def example_loop_def)
  obtain el2 where b: "aeCreateFileEvent accept_all el1 3 AE_WRITABLE 20 (Some 2) = Some (AE_OK, el2)"
    using add_ok_slot [OF a] by (simp add: aeCreateFileEvent_def accept_all_def)
  have n: "mask_fe (events example_loop ! 3) = AE_NONE"
    by (simp add: example_loop_def fresh_slot_def)
  from aeCreateFileEvent_additive [OF a b] n a b show ?thesis by auto
qed

section \<open>Proofs: dispatch of file events\<close>

lemma invoke_file_Some:
  assumes "invoke_file env m r p fd cd fmask = Some m'"
  shows "\<exists>f. p = Some f \<and> calls m' = calls m @ [FileCall r f fd cd fmask] \<and>
           call_file env f (loop m, world m) fd cd fmask = (loop m', world m')"
  using assms by (auto simp: invoke_file_def split: option.splits prod.splits)

lemma dispatch_fired_read_first:
  assumes e: "j < length (fired (loop m))" "fired (loop m) ! j = Some (fd, fmask)"
    and fd: "0 \<le> fd" "nat fd < length (events (loop m))"
    and fe: "fe = events (loop m) ! nat fd"
    and rd: "mask_fe fe AND fmask AND AE_READABLE \<noteq> 0" "rfileProc fe = Some f"
    and c: "call_file env f (loop m, world m) fd (clientData fe) fmask = (el1, w1)"
    and fe1: "nat fd < length (events el1)" "fe1 = events el1 ! nat fd"
    and blk: "events_block el1 = events_block (loop m)"
  shows "dispatch_fired env m j =
           (if mask_fe fe1 AND fmask AND AE_WRITABLE \<noteq> 0 \<and> wfileProc fe1 \<noteq> rfileProc fe1
            then invoke_file env \<lparr>loop = el1, world = w1,
                                   calls = calls m @ [FileCall AsRead f fd (clientData fe) fmask]\<rparr>
                   AsWrite (wfileProc fe1) fd (clientData fe1) fmask
            else Some \<lparr>loop = el1, world = w1,
                       calls = calls m @ [FileCall AsRead f fd (clientData fe) fmask]\<rparr>)"
proof -
  have i: "invoke_file env m AsRead (rfileProc fe) fd (clientData fe) fmask =
        Some \<lparr>loop = el1, world = w1, calls = calls m @ [FileCall AsRead f fd (clientData fe) fmask]\<rparr>"
    using rd(2) c by (simp add: invoke_file_def)
  show ?thesis
    unfolding dispatch_fired_def
    using e fd rd(1) fe1 blk by (simp add: fe [symmetric] i Let_def)
qed







lemmas example_defs = example_env_def example_loop_def duplex_machine_def quiet_machine_def
  late_machine_def late_timer_def accept_all_def fresh_slot_def
  AE_NONE_def AE_READABLE_def AE_WRITABLE_def AE_OK_def AE_ERR_def AE_NOMORE_def
  AE_ALL_EVENTS_def AE_FILE_EVENTS_def AE_TIME_EVENTS_def AE_DONT_WAIT_def



section \<open>Proofs: client data of a slot\<close>

lemma clientData_add_to_slot: "clientData (add_to_slot fe m p cd) = cd"
  by (simp add: add_to_slot_def Let_def)

lemma rfileProc_add_to_slot:
  "rfileProc (add_to_slot fe m p cd) = (if m AND AE_READABLE \<noteq> 0 then Some p else rfileProc fe)"
  by (simp add: add_to_slot_def Let_def)

lemma bit0_and: "(a AND (b::int) AND 1 \<noteq> 0) = (odd a \<and> odd b)"
proof -
  have "a AND b AND 1 = (a AND b) AND 1" by (simp add: and.assoc)
  also have "\<dots> = of_bool (odd (a AND b))" by (simp add: and_one_eq mod_2_eq_odd)
  finally show ?thesis by (simp add: even_and_iff)
qed

lemma readable_after_adds:
  assumes "fmask AND AE_READABLE \<noteq> 0"
  shows "((x OR AE_READABLE) OR AE_WRITABLE) AND fmask AND AE_READABLE \<noteq> 0"
proof -
  from assms have "odd fmask"
    by (simp add: AE_READABLE_def and_one_eq mod_2_eq_odd)
  then show ?thesis
    by (simp add: AE_READABLE_def AE_WRITABLE_def bit0_and even_or_iff)
qed


lemma dispatch_fired_read_call:
  assumes d: "dispatch_fired env m j = Some m'"
    and e: "fired (loop m) ! j = Some (fd, fmask)"
    and rd: "mask_fe (events (loop m) ! nat fd) AND fmask AND AE_READABLE \<noteq> 0"
            "rfileProc (events (loop m) ! nat fd) = Some f"
  shows "\<exists>cs. calls m' = calls m @ FileCall AsRead f fd (clientData (events (loop m) ! nat fd)) fmask # cs"
proof -
  define fe where "fe = events (loop m) ! nat fd"
  from d e have fd: "j < length (fired (loop m))" "0 \<le> fd" "nat fd < length (events (loop m))"
    by (auto simp: dispatch_fired_def split: if_splits)
  obtain el1 w1 where c: "call_file env f (loop m, world m) fd (clientData fe) fmask = (el1, w1)"
    by (cases "call_file env f (loop m, world m) fd (clientData fe) fmask") blast
  have i: "invoke_file env m AsRead (rfileProc fe) fd (clientData fe) fmask =
        Some \<lparr>loop = el1, world = w1, calls = calls m @ [FileCall AsRead f fd (clientData fe) fmask]\<rparr>"
    using rd(2) c by (simp add: invoke_file_def fe_def)
  have len: "nat fd < length (events el1)" and blk: "events_block el1 = events_block (loop m)"
    using d e fd rd(1) i by (auto simp: dispatch_fired_def fe_def [symmetric] Let_def split: if_splits)
  from dispatch_fired_read_first [OF fd(1) e fd(2,3) fe_def _ _ c len refl blk] rd d
  have "(if mask_fe (events el1 ! nat fd) AND fmask AND AE_WRITABLE \<noteq> 0 \<and>
             wfileProc (events el1 ! nat fd) \<noteq> rfileProc (events el1 ! nat fd)
         then invoke_file env \<lparr>loop = el1, world = w1,
                                calls = calls m @ [FileCall AsRead f fd (clientData fe) fmask]\<rparr>
                AsWrite (wfileProc (events el1 ! nat fd)) fd (clientData (events el1 ! nat fd)) fmask
         else Some \<lparr>loop = el1, world = w1,
                    calls = calls m @ [FileCall AsRead f fd (clientData fe) fmask]\<rparr>) = Some m'"
    by (simp add: fe_def)
  then have "\<exists>cs. calls m' = calls m @ FileCall AsRead f fd (clientData fe) fmask # cs"
    by (auto split: if_splits dest!: invoke_file_Some)
  then show ?thesis by (simp add: fe_def)
qed

text \<open>
  Claim C10.  A slot has one client data field for both directions: every aeCreateFileEvent
  that returns AE_OK stores its client data in the slot, whatever its mask; so after an add
  of AE_READABLE with \<open>f\<close> and \<open>d1\<close> and an add of AE_WRITABLE with \<open>g\<close> and \<open>d2\<close>
  on the same descriptor, the slot's read callback is \<open>f\<close>, its client data is \<open>d2\<close>, and
  every dispatch of a fired entry of the descriptor whose mask has AE_READABLE calls \<open>f\<close>,
  as read callback, with \<open>d2\<close>.
\<close>

theorem clientData_shared_by_directions:
  "(\<forall>m p cd el'. aeCreateFileEvent api el fd m p cd = Some (AE_OK, el')
      \<longrightarrow> clientData (events el' ! nat fd) = cd) \<and>
   (\<forall>f d1 el1 g d2 el2.
      aeCreateFileEvent api el fd AE_READABLE f d1 = Some (AE_OK, el1) \<and>
      aeCreateFileEvent api el1 fd AE_WRITABLE g d2 = Some (AE_OK, el2)
      \<longrightarrow> rfileProc (events el2 ! nat fd) = Some f \<and> clientData (events el2 ! nat fd) = d2 \<and>
          (\<forall>env m j fmask m'.
             events (loop m) ! nat fd = events el2 ! nat fd \<and>
             fired (loop m) ! j = Some (fd, fmask) \<and> fmask AND AE_READABLE \<noteq> 0 \<and>
             dispatch_fired env m j = Some m'
             \<longrightarrow> (\<exists>cs. calls m' = calls m @ FileCall AsRead f fd d2 fmask # cs)))"
proof (intro conjI allI impI)
  fix m p cd el'
  assume "aeCreateFileEvent api el fd m p cd = Some (AE_OK, el')"
  from add_ok_slot [OF this] show "clientData (events el' ! nat fd) = cd"
    by (simp add: clientData_add_to_slot)
next
  fix f d1 el1 g d2 el2
  assume a: "aeCreateFileEvent api el fd AE_READABLE f d1 = Some (AE_OK, el1) \<and>
      aeCreateFileEvent api el1 fd AE_WRITABLE g d2 = Some (AE_OK, el2)"
  then have a1: "aeCreateFileEvent api el fd AE_READABLE f d1 = Some (AE_OK, el1)"
    and a2: "aeCreateFileEvent api el1 fd AE_WRITABLE g d2 = Some (AE_OK, el2)" by simp_all
  from add_ok_slot [OF a1] add_ok_slot [OF a2]
  have s: "events el2 ! nat fd =
            add_to_slot (add_to_slot (events el ! nat fd) AE_READABLE f d1) AE_WRITABLE g d2"
    by simp
  show r: "rfileProc (events el2 ! nat fd) = Some f"
    by (simp add: s rfileProc_add_to_slot AE_READABLE_def AE_WRITABLE_def)
  show c: "clientData (events el2 ! nat fd) = d2"
    by (simp add: s clientData_add_to_slot)
  have k: "mask_fe (events el2 ! nat fd) = (mask_fe (events el ! nat fd) OR AE_READABLE) OR AE_WRITABLE"
    by (simp add: s mask_add_to_slot)
  fix env :: "('b, 'c) aeEnv" and m :: "('b, 'c) machine" and j fmask m'
  assume b: "events (loop m) ! nat fd = events el2 ! nat fd \<and>
             fired (loop m) ! j = Some (fd, fmask) \<and> fmask AND AE_READABLE \<noteq> 0 \<and>
             dispatch_fired env m j = Some m'"
  then have rd: "mask_fe (events (loop m) ! nat fd) AND fmask AND AE_READABLE \<noteq> 0"
    using readable_after_adds [of fmask "mask_fe (events el ! nat fd)"] by (simp add: k)
  from b r have rp: "rfileProc (events (loop m) ! nat fd) = Some f" by simp
  from b have d: "dispatch_fired env m j = Some m'" and e: "fired (loop m) ! j = Some (fd, fmask)"
    by simp_all
  from dispatch_fired_read_call [OF d e rd rp] b c
  show "\<exists>cs. calls m' = calls m @ FileCall AsRead f fd d2 fmask # cs" by simp
qed

lemma dispatch_shared:
  "dispatch_fired example_env shared_machine 0 =
     Some (shared_machine\<lparr>calls := [FileCall AsRead 10 3 (Some 2) 1]\<rparr>)"
  by (simp add: dispatch_fired_def invoke_file_def shared_machine_def example_defs)

theorem clientData_shared_by_directions_witness:
  "(\<exists>el1 el2.
      aeCreateFileEvent accept_all example_loop 3 AE_READABLE 10 (Some 1) = Some (AE_OK, el1) \<and>
      aeCreateFileEvent accept_all el1 3 AE_WRITABLE 20 (Some 2) = Some (AE_OK, el2) \<and>
      clientData (events el1 ! 3) = Some 1 \<and> clientData (events el2 ! 3) = Some 2 \<and>
      events (loop shared_machine) ! 3 = events el2 ! 3) \<and>
   fired (loop shared_machine) ! 0 = Some (3, 1) \<and>
   (\<exists>m' cs. dispatch_fired example_env shared_machine 0 = Some m' \<and>
      calls m' = calls shared_machine @ FileCall AsRead 10 3 (Some 2) 1 # cs)"
proof -
  obtain el1 where a1: "aeCreateFileEvent accept_all example_loop 3 AE_READABLE 10 (Some 1) = Some (AE_OK, el1)"
    by (simp add: aeCreateFileEvent_def accept_all_def example_loop_def)
  obtain el2 where a2: "aeCreateFileEvent accept_all el1 3 AE_WRITABLE 20 (Some 2) = Some (AE_OK, el2)"
    using add_ok_slot [OF a1] by (simp add: aeCreateFileEvent_def accept_all_def)
  from add_ok_slot [OF a1] add_ok_slot [OF a2]
  have s: "events el2 ! 3 =
            add_to_slot (add_to_slot (events example_loop ! 3) AE_READABLE 10 (Some 1)) AE_WRITABLE 20 (Some 2)"
    by simp
  have same: "events (loop shared_machine) ! 3 = events el2 ! 3"
    by (simp add: s shared_machine_def add_to_slot_def example_defs)
  have f: "fired (loop shared_machine) ! 0 = Some (3, 1)"
    by (simp add: shared_machine_def example_defs)
  have c1: "clientData (events el1 ! 3) = Some 1"
    using conjunct1 [OF clientData_shared_by_directions [of accept_all example_loop 3], rule_format, OF a1]
    by simp
  note t = conjunct2 [OF clientData_shared_by_directions [of accept_all example_loop 3],
             rule_format, OF conjI [OF a1 a2]]
  have c2: "clientData (events el2 ! 3) = Some 2"
    using t [THEN conjunct2, THEN conjunct1] by simp
  have h: "events (loop shared_machine) ! nat 3 = events el2 ! nat 3 \<and>
           fired (loop shared_machine) ! 0 = Some (3, 1) \<and> 1 AND AE_READABLE \<noteq> 0 \<and>
           dispatch_fired example_env shared_machine 0 =
             Some (shared_machine\<lparr>calls := [FileCall AsRead 10 3 (Some 2) 1]\<rparr>)"
    using same f dispatch_shared by (simp add: AE_READABLE_def)
  from t [THEN conjunct2, THEN conjunct2, rule_format, OF h] dispatch_shared
  have d: "\<exists>m' cs. dispatch_fired example_env shared_machine 0 = Some m' \<and>
      calls m' = calls shared_machine @ FileCall AsRead 10 3 (Some 2) 1 # cs"
    by simp
  from a1 a2 c1 c2 same f d show ?thesis by auto
qed

section \<open>Proofs: creation of time events and the poll timeout\<close>

text \<open>
  Claim C6, amended.  When the allocation of the timer record fails, aeCreateTimeEvent
  returns AE_ERR and leaves the timer list and every other field of the loop as they were,
  except timeEventNextId, which it has already incremented: the identifier is used up.
\<close>

theorem aeCreateTimeEvent_alloc_failure:
  "aeCreateTimeEvent False cur el ms proc cd fin =
     (AE_ERR, el\<lparr>timeEventNextId := timeEventNextId el + 1\<rparr>)"
  by (simp add: aeCreateTimeEvent_def Let_def)

text \<open>
  Claim C6 as stated fails: after the failed call on a fresh loop timeEventNextId is 1,
  not 0.
\<close>

theorem aeCreateTimeEvent_alloc_failure_counterexample:
  "fst (aeCreateTimeEvent False (100, 0) example_loop 50 1 None None) = AE_ERR \<and>
   timeEventNextId example_loop = 0 \<and>
   timeEventNextId (snd (aeCreateTimeEvent False (100, 0) example_loop 50 1 None None)) = 1"
  by (simp add: aeCreateTimeEvent_def Let_def example_loop_def)

lemma nearest_timeout_late: "nearest_timeout late_timer (10, 500) = (0, 600000)"
  by (simp add: nearest_timeout_def late_timer_def Let_def)

lemma unlink_late: "unlink 0 [late_timer] = Some (late_timer, [])"
  by (simp add: late_timer_def)

lemma late_machine_polled:
  "polled (world (snd (snd (aeProcessEvents example_env 5 late_machine AE_ALL_EVENTS))))
     = [Some (0, 600000)]"
  by (simp add: aeProcessEvents_def poll_timeout_def aeSearchNearestTimer_def aeGetTime_def
      nearest_timeout_late processTimeEvents_def skew_reset_def fire_def aeDeleteTimeEvent_def
      unlink_late Let_def example_env_def late_machine_def example_loop_def
      AE_ALL_EVENTS_def AE_FILE_EVENTS_def AE_TIME_EVENTS_def AE_DONT_WAIT_def AE_NOMORE_def
      AE_OK_def)
    (simp add: late_timer_def)

text \<open>
  Claim C5 does not hold of the code.  The nearest timer is due at 10 s 100 ms and the clock
  reads 10 s 500 ms: the fire time is before the current time.  The seconds of the
  difference are clamped to 0, but the microseconds were computed with the borrow and are
  positive, so the timeout computed for aeApiPoll is (0 s, 600000 us), not zero
  (\<open>late_machine_polled\<close>: the backend is called with it).
\<close>

theorem timeout_of_late_timer_not_zero:
  "when_sec late_timer = 10 \<and> when_ms late_timer = 100 \<and>
   aeGetTime example_env (world late_machine) = ((10, 500), world late_machine) \<and>
   aeSearchNearestTimer (loop late_machine) = Some late_timer \<and>
   nearest_timeout late_timer (10, 500) = (0, 600000) \<and>
   fst (poll_timeout example_env late_machine AE_ALL_EVENTS) = Some (0, 600000)"
  by (simp add: poll_timeout_def aeSearchNearestTimer_def aeGetTime_def nearest_timeout_late
      example_env_def late_machine_def example_loop_def AE_ALL_EVENTS_def AE_FILE_EVENTS_def
      AE_TIME_EVENTS_def AE_DONT_WAIT_def)
    (simp add: late_timer_def)

section \<open>Proofs: firing time events\<close>

lemma aeDeleteTimeEvent_calls:
  assumes "aeDeleteTimeEvent env m i = (r, m')"
  shows "calls m' = calls m \<or> (\<exists>f d. calls m' = calls m @ [FinalizerCall f d])"
  using assms
  by (auto simp: aeDeleteTimeEvent_def Let_def split: option.splits prod.splits)

lemma fire_calls:
  assumes "fire env m te = (ok, m')"
  shows "\<exists>cs. calls m' = calls m @ TimeCall (timeProc te) (id_te te) (clientData_te te) # cs \<and>
              (\<forall>f i d. TimeCall f i d \<notin> set cs)"
proof -
  obtain retval el w where c: "call_time env (timeProc te) (loop m, world m) (id_te te) (clientData_te te) = (retval, el, w)"
    by (metis prod_cases3)
  define m1 where "m1 = \<lparr>loop = el, world = w,
                    calls = calls m @ [TimeCall (timeProc te) (id_te te) (clientData_te te)]\<rparr>"
  show ?thesis
  proof (cases "retval \<noteq> AE_NOMORE")
    case True
    with assms c have "calls m' = calls m1"
      by (auto simp: fire_def Let_def m1_def split: prod.splits option.splits)
    then show ?thesis by (simp add: m1_def)
  next
    case False
    with assms c have "m' = snd (aeDeleteTimeEvent env m1 (id_te te))"
      by (auto simp: fire_def Let_def m1_def)
    with aeDeleteTimeEvent_calls [of env m1 "id_te te" "fst (aeDeleteTimeEvent env m1 (id_te te))" m']
    have "calls m' = calls m1 \<or> (\<exists>f d. calls m' = calls m1 @ [FinalizerCall f d])" by simp
    then show ?thesis by (auto simp: m1_def)
  qed
qed

lemma timer_loop_calls:
  "timer_loop env fuel maxId tes m p = (st, n, m') \<Longrightarrow>
   \<exists>cs. calls m' = calls m @ cs \<and> (\<forall>f i d. TimeCall f i d \<in> set cs \<longrightarrow> i \<le> maxId)"
proof (induction env fuel maxId tes m p rule: timer_loop.induct)
  case (1 env fuel maxId m processed)
  then show ?case by simp
next
  case (2 env fuel maxId te rest m processed)
  show ?case
  proof (cases "id_te te > maxId")
    case True
    with 2 show ?thesis by simp
  next
    case False
    obtain now w1 where g: "aeGetTime env (world m) = (now, w1)" by (cases "aeGetTime env (world m)")
    define m1 where "m1 = m\<lparr>world := w1\<rparr>"
    show ?thesis
    proof (cases "fst now > when_sec te \<or> (fst now = when_sec te \<and> snd now \<ge> when_ms te)")
      case ripe: True
      show ?thesis
      proof (cases fuel)
        case 0
        with 2(4) False g ripe have "m' = m1" by (simp add: m1_def)
        then show ?thesis by (simp add: m1_def)
      next
        case (Suc fuel')
        obtain ok m2 where fr: "fire env m1 te = (ok, m2)" by (cases "fire env m1 te")
        from fire_calls [OF fr] obtain cs1 where
          cs1: "calls m2 = calls m1 @ TimeCall (timeProc te) (id_te te) (clientData_te te) # cs1"
            "\<forall>f i d. TimeCall f i d \<notin> set cs1" by blast
        show ?thesis
        proof (cases ok)
          case False
          with 2(4) \<open>\<not> id_te te > maxId\<close> g ripe Suc fr have "m' = m2" by (simp add: m1_def)
          with cs1 \<open>\<not> id_te te > maxId\<close> show ?thesis by (auto simp: m1_def)
        next
          case True
          with 2(4) \<open>\<not> id_te te > maxId\<close> g ripe Suc fr
          have r: "timer_loop env fuel' maxId (timeEventHead (loop m2)) m2 (processed + 1) = (st, n, m')"
            by (simp add: m1_def)
          from "2.IH"(2) [OF \<open>\<not> id_te te > maxId\<close> g [symmetric] m1_def ripe Suc fr [symmetric] True r]
          obtain cs where cs: "calls m' = calls m2 @ cs" "\<forall>f i d. TimeCall f i d \<in> set cs \<longrightarrow> i \<le> maxId"
            by blast
          have "calls m' = calls m @ (TimeCall (timeProc te) (id_te te) (clientData_te te) # cs1 @ cs)"
            using cs(1) cs1(1) by (simp add: m1_def)
          moreover have "\<forall>f i d. TimeCall f i d \<in> set (TimeCall (timeProc te) (id_te te) (clientData_te te) # cs1 @ cs) \<longrightarrow> i \<le> maxId"
            using cs(2) cs1(2) \<open>\<not> id_te te > maxId\<close> by auto
          ultimately show ?thesis by blast
        qed
      qed
    next
      case notripe: False
      with 2(4) \<open>\<not> id_te te > maxId\<close> g
      have r: "timer_loop env fuel maxId rest m1 processed = (st, n, m')"
        by (simp add: m1_def)
      from "2.IH"(3) [OF \<open>\<not> id_te te > maxId\<close> g [symmetric] m1_def notripe r]
      show ?thesis by (simp add: m1_def)
    qed
  qed
qed

text \<open>
  Claim C3.  In one call of processTimeEvents, however it ends and whatever the callbacks
  do, every timer callback that is invoked is invoked for an identifier at most
  \<open>maxId = timeEventNextId - 1\<close>, with timeEventNextId as it was at the start of the pass.
  A timer created during the pass gets its identifier from a timeEventNextId that is no
  smaller than at the start, so no timer callback is invoked for it in this pass.
\<close>

theorem new_timers_not_fired:
  assumes "processTimeEvents env fuel m = (st, n, m')"
  shows "\<exists>cs. calls m' = calls m @ cs \<and>
           (\<forall>f i d. TimeCall f i d \<in> set cs \<longrightarrow> i \<le> timeEventNextId (loop m) - 1) \<and>
           (\<forall>el cur ms p cd fin f d. timeEventNextId (loop m) \<le> timeEventNextId el \<longrightarrow>
               TimeCall f (fst (aeCreateTimeEvent True cur el ms p cd fin)) d \<notin> set cs)"
proof -
  obtain now w1 where t: "time_now env (world m) = (now, w1)" by (cases "time_now env (world m)")
  define el1 where "el1 = skew_reset now (loop m)"
  have nid: "timeEventNextId el1 = timeEventNextId (loop m)"
    by (simp add: el1_def skew_reset_def)
  from assms t have "timer_loop env fuel (timeEventNextId el1 - 1) (timeEventHead el1)
      (m\<lparr>loop := el1, world := w1\<rparr>) 0 = (st, n, m')"
    by (simp add: processTimeEvents_def Let_def el1_def)
  from timer_loop_calls [OF this] nid obtain cs where
    cs: "calls m' = calls m @ cs" "\<forall>f i d. TimeCall f i d \<in> set cs \<longrightarrow> i \<le> timeEventNextId (loop m) - 1"
    by auto
  have "TimeCall f (fst (aeCreateTimeEvent True cur el ms p cd fin)) d \<notin> set cs"
    if "timeEventNextId (loop m) \<le> timeEventNextId el" for el :: "'c aeEventLoop" and cur ms p cd fin f d
  proof
    assume "TimeCall f (fst (aeCreateTimeEvent True cur el ms p cd fin)) d \<in> set cs"
    with cs(2) have "fst (aeCreateTimeEvent True cur el ms p cd fin) \<le> timeEventNextId (loop m) - 1"
      by blast
    moreover have "fst (aeCreateTimeEvent True cur el ms p cd fin) = timeEventNextId el"
      by (simp add: aeCreateTimeEvent_def Let_def)
    ultimately show False using that by linarith
  qed
  with cs show ?thesis by blast
qed


lemmas timer_defs = processTimeEvents_def skew_reset_def fire_def aeDeleteTimeEvent_def
  aeGetTime_def aeCreateTimeEvent_def aeAddMillisecondsToNow_def Let_def

lemma creating_run:
  "processTimeEvents example_env 5 creating_machine =
     (Finished, 1,
      creating_machine
        \<lparr>loop := (loop creating_machine)
           \<lparr>timeEventNextId := 2, lastTime := 10,
             timeEventHead := [\<lparr>id_te = 1, when_sec = 10, when_ms = 0, timeProc = 1,
                                finalizerProc = None, clientData_te = None\<rparr>]\<rparr>,
          calls := [TimeCall 3 0 None]\<rparr>)"
  by (simp add: timer_defs creating_machine_def example_defs)

theorem new_timers_not_fired_witness:
  "\<exists>m'. processTimeEvents example_env 5 creating_machine = (Finished, 1, m') \<and>
      map id_te (timeEventHead (loop m')) = [1] \<and>
      (\<exists>cs. calls m' = calls creating_machine @ cs \<and> cs = [TimeCall 3 0 None] \<and>
            TimeCall 1 1 None \<notin> set cs)"
proof -
  from new_timers_not_fired [OF creating_run]
  obtain cs where cs: "calls (creating_machine
        \<lparr>loop := (loop creating_machine)
           \<lparr>timeEventNextId := 2, lastTime := 10,
             timeEventHead := [\<lparr>id_te = 1, when_sec = 10, when_ms = 0, timeProc = 1,
                                finalizerProc = None, clientData_te = None\<rparr>]\<rparr>,
          calls := [TimeCall 3 0 None]\<rparr>) = calls creating_machine @ cs"
    and le: "\<forall>f i d. TimeCall f i d \<in> set cs \<longrightarrow> i \<le> timeEventNextId (loop creating_machine) - 1"
    by blast
  have "TimeCall 1 1 None \<notin> set cs"
  proof
    assume "TimeCall 1 1 None \<in> set cs"
    with le have "(1::int) \<le> timeEventNextId (loop creating_machine) - 1" by blast
    then show False by (simp add: creating_machine_def)
  qed
  moreover from cs have "cs = [TimeCall 3 0 None]"
    by (simp add: creating_machine_def)
  ultimately show ?thesis using creating_run cs by simp
qed

section \<open>Proofs: the firing pass after a clock skew\<close>

text \<open>
  Timers created by aeCreateTimeEvent carry distinct identifiers below timeEventNextId.
\<close>

lemma aeCreateTimeEvent_ids:
  assumes "timer_ids_ok el"
  shows "timer_ids_ok (snd (aeCreateTimeEvent ok cur el ms p cd fin))"
  using assms by (auto simp: timer_ids_ok_def aeCreateTimeEvent_def Let_def)












subsection \<open>The pass returns when the timers are one-shot timers\<close>






lemma timer_ids_ok_create:
  "timer_ids_ok el \<Longrightarrow> timer_ids_ok (snd (aeCreateTimeEvent True cur el ms p cd fin))"
  by (rule aeCreateTimeEvent_ids)





lemma skewed_run:
  "processTimeEvents plain_env 5 skewed_machine =
     (Finished, 2,
      skewed_machine
        \<lparr>loop := (loop skewed_machine)\<lparr>lastTime := 50, timeEventHead := []\<rparr>,
          calls := [TimeCall 1 1 None, TimeCall 1 0 None]\<rparr>)"
  by (simp add: timer_defs skewed_machine_def plain_env_def example_defs)






section \<open>Proofs: listIndex\<close>

lemma walk_next:
  "dll h l as \<Longrightarrow> j < length as \<Longrightarrow>
   walk next_n h k (Some (as ! j)) = Some (if j + k < length as then Some (as ! (j + k)) else None)"
proof (induction k arbitrary: j)
  case 0
  then show ?case by simp
next
  case (Suc k)
  from Suc.prems obtain nd where nd: "h (as ! j) = Some nd"
    "next_n nd = (if Suc j < length as then Some (as ! Suc j) else None)"
    by (auto simp: dll_def)
  show ?case
  proof (cases "Suc j < length as")
    case True
    with Suc.IH [OF Suc.prems(1) True] nd show ?thesis by simp
  next
    case False
    with nd Suc.prems(2) show ?thesis by (cases k) simp_all
  qed
qed

lemma walk_prev:
  "dll h l as \<Longrightarrow> j < length as \<Longrightarrow>
   walk prev_n h k (Some (as ! j)) = Some (if k \<le> j then Some (as ! (j - k)) else None)"
proof (induction k arbitrary: j)
  case 0
  then show ?case by simp
next
  case (Suc k)
  from Suc.prems obtain nd where nd: "h (as ! j) = Some nd"
    "prev_n nd = (if j = 0 then None else Some (as ! (j - 1)))"
    by (auto simp: dll_def)
  show ?case
  proof (cases j)
    case 0
    with nd show ?thesis by (cases k) simp_all
  next
    case (Suc j')
    with Suc.prems(2) have "j' < length as" by simp
    from Suc.IH [OF Suc.prems(1) this] nd Suc show ?thesis by simp
  qed
qed

lemma walk_null: "walk step h k None = Some None"
  by (cases k) simp_all

lemma listIndex_forward:
  assumes "dll h l as" "0 \<le> i"
  shows "listIndex h l i = Some (if nat i < length as then Some (as ! nat i) else None)"
proof (cases "as = []")
  case True
  with assms show ?thesis by (simp add: listIndex_def dll_def walk_null)
next
  case False
  with assms(1) have h: "head l = Some (as ! 0)" "0 < length as"
    by (simp_all add: dll_def hd_conv_nth)
  from walk_next [OF assms(1) h(2), of "nat i"] assms(2) h(1) show ?thesis
    by (simp add: listIndex_def)
qed

lemma listIndex_backward:
  assumes "dll h l as" "i < 0" "LONG_MIN < i"
  shows "listIndex h l i = Some (if nat (- i) \<le> length as then Some (as ! (length as - nat (- i))) else None)"
proof (cases "as = []")
  case True
  with assms show ?thesis by (simp add: listIndex_def dll_def walk_null)
next
  case False
  with assms(1) have t: "tail l = Some (as ! (length as - 1))" "length as - 1 < length as"
    by (simp_all add: dll_def last_conv_nth)
  define k where "k = nat (- i - 1)"
  from assms(2) have ni: "nat (- i) = Suc k" by (simp add: k_def)
  from False have pos: "0 < length as" by simp
  from walk_prev [OF assms(1) t(2), of k] t(1)
  have w: "walk prev_n h k (tail l) =
           Some (if k \<le> length as - 1 then Some (as ! (length as - 1 - k)) else None)"
    by simp
  have "(if k \<le> length as - 1 then Some (as ! (length as - 1 - k)) else None) =
        (if Suc k \<le> length as then Some (as ! (length as - Suc k)) else None)"
    using pos by (cases "length as") auto
  with w assms(2,3) show ?thesis
    by (simp add: listIndex_def ni k_def [symmetric])
qed

text \<open>
  The lists that listCreate and listAddNodeTail build satisfy the invariant (the allocator
  returns an address that is not in use).
\<close>

lemma dll_listCreate: "listCreate True = Some l \<Longrightarrow> dll h l []"
  by (auto simp: listCreate_def dll_def)

lemma dll_in_store: "dll h l as \<Longrightarrow> x \<in> set as \<Longrightarrow> h x \<noteq> None"
  by (auto simp: dll_def in_set_conv_nth)

lemma dll_listAddNodeTail:
  assumes d: "dll h l as" and fresh: "h a = None"
  shows "\<exists>h' l'. listAddNodeTail h l v (Some a) = Some (True, h', l') \<and> dll h' l' (as @ [a])"
proof (cases "as = []")
  case True
  with d have "len l = 0" by (simp add: dll_def)
  with True d show ?thesis
    by (simp add: listAddNodeTail_def dll_def)
next
  case False
  from d fresh have na: "a \<notin> set as" using dll_in_store by fastforce
  define n where "n = length as"
  from False have n0: "0 < n" by (simp add: n_def)
  from d False have t: "tail l = Some (last as)" "len l = n" "len l \<noteq> 0" "distinct as"
    by (simp_all add: dll_def n_def)
  have lastn: "last as = as ! (n - 1)" using False by (simp add: last_conv_nth n_def)
  from d have all: "\<forall>i<length as. \<exists>nd. h (as ! i) = Some nd \<and>
        prev_n nd = (if i = 0 then None else Some (as ! (i - 1))) \<and>
        next_n nd = (if Suc i < length as then Some (as ! Suc i) else None)"
    by (simp add: dll_def)
  from n0 have "n - 1 < length as" by (simp add: n_def)
  with all obtain tn where tn: "h (as ! (n - 1)) = Some tn"
    "prev_n tn = (if n - 1 = 0 then None else Some (as ! (n - 1 - 1)))"
    by blast
  from na n0 have ne: "as ! (n - 1) \<noteq> a" by (auto simp: n_def)
  define h1 where "h1 = h(a \<mapsto> \<lparr>prev_n = Some (last as), next_n = None, value_n = v\<rparr>)"
  define h' where "h' = h1(last as \<mapsto> tn\<lparr>next_n := Some a\<rparr>)"
  define l' where "l' = l\<lparr>tail := Some a, len := len l + 1\<rparr>"
  have r: "listAddNodeTail h l v (Some a) = Some (True, h', l')"
    using t tn ne by (simp add: listAddNodeTail_def Let_def h1_def h'_def l'_def lastn)
  have nodes: "\<exists>nd. h' ((as @ [a]) ! i) = Some nd \<and>
        prev_n nd = (if i = 0 then None else Some ((as @ [a]) ! (i - 1))) \<and>
        next_n nd = (if Suc i < length (as @ [a]) then Some ((as @ [a]) ! Suc i) else None)"
    if i: "i < length (as @ [a])" for i
  proof -
    from i have "i \<le> n" by (simp add: n_def)
    then consider "i = n" | "i = n - 1" | "i < n - 1" by linarith
    then show ?thesis
    proof cases
      case 1
      with n0 ne show ?thesis
        by (simp add: h'_def h1_def lastn nth_append n_def [symmetric])
    next
      case 2
      with n0 tn show ?thesis
        by (auto simp: h'_def h1_def lastn nth_append n_def [symmetric])
    next
      case 3
      then have lt: "i < length as" "Suc i < length as" by (simp_all add: n_def)
      from all lt(1) obtain nd where nd: "h (as ! i) = Some nd"
        "prev_n nd = (if i = 0 then None else Some (as ! (i - 1)))"
        "next_n nd = (if Suc i < length as then Some (as ! Suc i) else None)"
        by blast
      from 3 t(4) n0 have "as ! i \<noteq> as ! (n - 1)"
        by (simp add: nth_eq_iff_index_eq n_def)
      moreover from na lt(1) have "as ! i \<noteq> a" by auto
      moreover from 3 have "i - Suc 0 < n" by linarith
      ultimately show ?thesis using nd lt 3
        by (simp add: h'_def h1_def lastn nth_append n_def [symmetric])
    qed
  qed
  have "dll h' l' (as @ [a])"
    unfolding dll_def
    using t na False nodes d by (simp add: l'_def dll_def)
  with r show ?thesis by blast
qed

text \<open>
  Claim C9.  For every list that satisfies the invariant of the data model (with fewer than
  2^63 nodes, so that every index is a \<open>long\<close>) and every \<open>i\<close> with \<open>0 \<le> i < len(L)\<close>,
  listIndex(L, i) returns the node at position \<open>i\<close> from the head and listIndex(L, i - len(L))
  returns the same node; every index out of range (\<open>i \<ge> len(L)\<close> or \<open>i < -len(L)\<close>) returns
  null.
\<close>

theorem listIndex_positive_negative_agree:
  assumes "dll h l as" and "length as < 2 ^ 63"
  shows "(\<forall>i. 0 \<le> i \<and> i < int (len l) \<longrightarrow>
            listIndex h l i = Some (Some (as ! nat i)) \<and>
            listIndex h l (i - int (len l)) = listIndex h l i) \<and>
         (\<forall>i. LONG_MIN < i \<and> (int (len l) \<le> i \<or> i < - int (len l)) \<longrightarrow>
            listIndex h l i = Some None)"
proof (intro conjI allI impI)
  from assms(1) have n: "len l = length as" by (simp add: dll_def)
  {
    fix i assume i: "0 \<le> i \<and> i < int (len l)"
    then have lt: "nat i < length as" using n by linarith
    with i listIndex_forward [OF assms(1), of i]
    show f: "listIndex h l i = Some (Some (as ! nat i))" by simp
    let ?k = "i - int (len l)"
    from i n assms(2) have k: "?k < 0" "LONG_MIN < ?k" by (simp_all add: LONG_MIN_def)
    have "nat (- ?k) \<le> length as" "length as - nat (- ?k) = nat i"
      using i n by linarith+
    with listIndex_backward [OF assms(1) k] f
    show "listIndex h l (i - int (len l)) = listIndex h l i" by simp
  }
  {
    fix i assume i: "LONG_MIN < i \<and> (int (len l) \<le> i \<or> i < - int (len l))"
    show "listIndex h l i = Some None"
    proof (cases "0 \<le> i")
      case True
      with i n have "\<not> nat i < length as" by linarith
      with listIndex_forward [OF assms(1) True] show ?thesis by simp
    next
      case False
      then have neg: "i < 0" by simp
      with i have "i < - int (len l)" by linarith
      with n have "\<not> nat (- i) \<le> length as" by linarith
      with i listIndex_backward [OF assms(1) neg] show ?thesis by simp
    qed
  }
qed

lemma dll_three: "dll three_nodes three_list [10, 20, 30]"
  by (simp add: dll_def three_nodes_def three_list_def All_less_Suc numeral_3_eq_3)

theorem listIndex_positive_negative_agree_witness:
  "dll three_nodes three_list [10, 20, 30] \<and>
   listIndex three_nodes three_list 1 = Some (Some 20) \<and>
   listIndex three_nodes three_list (1 - 3) = Some (Some 20) \<and>
   listIndex three_nodes three_list 3 = Some None \<and>
   listIndex three_nodes three_list (- 4) = Some None"
proof -
  have l: "length [10, 20, 30 :: nat] < 2 ^ 63" by simp
  note t = listIndex_positive_negative_agree [OF dll_three l]
  have n: "len three_list = 3" by (simp add: three_list_def)
  from t [THEN conjunct1, rule_format, of 1]
  have a: "listIndex three_nodes three_list 1 = Some (Some 20)"
    "listIndex three_nodes three_list (1 - 3) = listIndex three_nodes three_list 1"
    by (simp_all add: n)
  from t [THEN conjunct2, rule_format, of 3]
  have b: "listIndex three_nodes three_list 3 = Some None"
    by (simp add: n LONG_MIN_def)
  from t [THEN conjunct2, rule_format, of "- 4"]
  have c: "listIndex three_nodes three_list (- 4) = Some None"
    by (simp add: n LONG_MIN_def)
  from dll_three a b c show ?thesis by simp
qed

end
